theory Spec2Isabelle
  imports Complex_Main "HOL-Library.Multiset" "HOL-Library.Monad_Syntax" "HOL-Library.Sublist"
begin

section \<open>Values of the host language\<close>

text \<open>
  The chat store of \<^verbatim>\<open>src/index.js\<close> keeps its data in plain ECMAScript objects and
  receives its inputs as parsed JSON. A number is an IEEE double: the three values that
  JSON cannot write are kept apart, a finite double is its exact rational value, and the
  two zeros are identified (as \<^verbatim>\<open>===\<close> does).
\<close>

datatype jsnum = NaN | PosInfinity | NegInfinity | Finite rat

text \<open>
  A parsed JSON value (\<^verbatim>\<open>express.json()\<close> fills \<^verbatim>\<open>req.body\<close> with one). An object
  lists its own properties in enumeration order, each key once. The value
  \<^verbatim>\<open>undefined\<close> is \<open>None\<close> of an option type wherever a property may be absent.
\<close>

datatype jv =
    JNull
  | JBool bool
  | JNum jsnum
  | JStr string
  | JArr "jv list"
  | JObj "(string \<times> jv) list"

text \<open>
  Three algorithms of the ECMAScript library are called by the source and are not part of
  the repository; the model takes them as parameters, so every theorem below holds for
  any implementation of them:
  \<^item> \<open>date_parse s\<close> is the time value of \<^verbatim>\<open>new Date(s)\<close> in milliseconds, \<open>None\<close> for
    an Invalid Date (time value \<^verbatim>\<open>NaN\<close>);
  \<^item> \<open>number_to_string\<close> is \<^verbatim>\<open>String(n)\<close> on a number;
  \<^item> \<open>string_to_number\<close> is \<^verbatim>\<open>Number(s)\<close> on a string.
\<close>

record platform =
  date_parse :: "string \<Rightarrow> int option"
  number_to_string :: "jsnum \<Rightarrow> string"
  string_to_number :: "string \<Rightarrow> jsnum"

text \<open>Truthiness, as \<^verbatim>\<open>!x\<close>, \<^verbatim>\<open>x ? a : b\<close> and \<^verbatim>\<open>Boolean(x)\<close> read it.\<close>

fun truthy :: "jv \<Rightarrow> bool" where
  "truthy JNull = False"
| "truthy (JBool b) = b"
| "truthy (JNum n) = (n \<noteq> NaN \<and> n \<noteq> Finite 0)"
| "truthy (JStr s) = (s \<noteq> [])"
| "truthy (JArr xs) = True"
| "truthy (JObj ps) = True"

definition truthy_opt :: "jv option \<Rightarrow> bool" where
  "truthy_opt v = (case v of None \<Rightarrow> False | Some x \<Rightarrow> truthy x)"

text \<open>\<^verbatim>\<open>v ?? d\<close>: the default replaces \<^verbatim>\<open>undefined\<close> and \<^verbatim>\<open>null\<close> only.\<close>

definition nullish_or :: "jv option \<Rightarrow> jv \<Rightarrow> jv" where
  "nullish_or v d = (case v of None \<Rightarrow> d | Some JNull \<Rightarrow> d | Some x \<Rightarrow> x)"

text \<open>
  \<^verbatim>\<open>b.k\<close> for the property names the routes read from a body (\<^verbatim>\<open>id\<close>, \<^verbatim>\<open>name\<close>,
  \<^verbatim>\<open>text\<close>, ...): an own property of an object; an array or a primitive has none of
  them.
\<close>

definition field :: "jv \<Rightarrow> string \<Rightarrow> jv option" where
  "field b k = (case b of JObj ps \<Rightarrow> map_of ps k | _ \<Rightarrow> None)"

text \<open>\<^verbatim>\<open>req.body || {}\<close>.\<close>

definition body_or_empty :: "jv option \<Rightarrow> jv" where
  "body_or_empty b = (case b of None \<Rightarrow> JObj [] | Some v \<Rightarrow> if truthy v then v else JObj [])"

fun join_strings :: "string list \<Rightarrow> string" where
  "join_strings [] = []"
| "join_strings [s] = s"
| "join_strings (s # t # ts) = s @ '','' @ join_strings (t # ts)"

text \<open>
  \<^verbatim>\<open>String(v)\<close>. An array joins the strings of its elements (\<^verbatim>\<open>null\<close> gives the empty
  string). An object parsed from JSON answers \<^verbatim>\<open>[object Object]\<close> through the inherited
  \<^verbatim>\<open>toString\<close>; when it has an own property of that name, which a JSON value cannot
  make callable, the conversion throws a TypeError: \<open>None\<close>.
\<close>

fun js_String :: "platform \<Rightarrow> jv \<Rightarrow> string option" where
  "js_String P JNull = Some ''null''"
| "js_String P (JBool b) = Some (if b then ''true'' else ''false'')"
| "js_String P (JNum n) = Some (number_to_string P n)"
| "js_String P (JStr s) = Some s"
| "js_String P (JArr xs) =
     map_option join_strings
       (those (map (\<lambda>x. if x = JNull then Some [] else js_String P x) xs))"
| "js_String P (JObj ps) =
     (if map_of ps ''toString'' \<noteq> None then None else Some ''[object Object]'')"

text \<open>\<^verbatim>\<open>Number(v)\<close>; \<open>None\<close> is again a TypeError of the conversion.\<close>

definition js_Number :: "platform \<Rightarrow> jv \<Rightarrow> jsnum option" where
  "js_Number P v =
     (case v of
        JNull \<Rightarrow> Some (Finite 0)
      | JBool b \<Rightarrow> Some (Finite (if b then 1 else 0))
      | JNum n \<Rightarrow> Some n
      | JStr s \<Rightarrow> Some (string_to_number P s)
      | JArr xs \<Rightarrow> map_option (string_to_number P) (js_String P (JArr xs))
      | JObj ps \<Rightarrow> (if map_of ps ''toString'' \<noteq> None then None else Some NaN))"

section \<open>The data model\<close>

record thread =
  th_id :: string
  th_name :: string
  th_avatarUrl :: string
  th_online :: bool
  th_lastMessage :: string
  th_unread :: jsnum
  th_updatedAt :: string
  th_muted :: bool
  th_archived :: bool

record message =
  msg_id :: string
  msg_fromMe :: bool
  msg_text :: string
  msg_at :: string

subsection \<open>Objects used as dictionaries\<close>

text \<open>
  \<^verbatim>\<open>db\<close>, \<^verbatim>\<open>store.threads\<close> and \<^verbatim>\<open>store.messages\<close> are object literals \<^verbatim>\<open>{}\<close> indexed
  by strings that come from the request. Their own properties are an association list in
  enumeration order: keys that are array indices first, in ascending numeric order, then
  the other keys in the order of their creation.
\<close>

definition digit :: "char \<Rightarrow> bool" where
  "digit c = (c \<in> set ''0123456789'')"

definition index_value :: "string \<Rightarrow> int" where
  "index_value s = foldl (\<lambda>n c. 10 * n + (of_char c - 48)) 0 s"

definition is_array_index :: "string \<Rightarrow> bool" where
  "is_array_index s =
     (s \<noteq> [] \<and> list_all digit s \<and> (s = ''0'' \<or> hd s \<noteq> CHR ''0'') \<and>
      index_value s < 4294967295)"

fun put_index :: "string \<Rightarrow> 'a \<Rightarrow> (string \<times> 'a) list \<Rightarrow> (string \<times> 'a) list" where
  "put_index k v [] = [(k, v)]"
| "put_index k v ((k', v') # ps) =
     (if is_array_index k' \<and> index_value k' < index_value k
      then (k', v') # put_index k v ps
      else (k, v) # (k', v') # ps)"

fun put_existing :: "string \<Rightarrow> 'a \<Rightarrow> (string \<times> 'a) list \<Rightarrow> (string \<times> 'a) list" where
  "put_existing k v [] = []"
| "put_existing k v ((k', v') # ps) =
     (if k' = k then (k, v) # ps else (k', v') # put_existing k v ps)"

text \<open>\<^verbatim>\<open>obj[k] = v\<close> on the own properties: an existing key keeps its place.\<close>

definition obj_put :: "string \<Rightarrow> 'a \<Rightarrow> (string \<times> 'a) list \<Rightarrow> (string \<times> 'a) list" where
  "obj_put k v ps =
     (if map_of ps k \<noteq> None then put_existing k v ps
      else if is_array_index k then put_index k v ps
      else ps @ [(k, v)])"

text \<open>
  A read \<^verbatim>\<open>obj[k]\<close> that finds no own property continues in the prototype chain, which
  ends in \<^verbatim>\<open>Object.prototype\<close>. Its members are functions, and \<^verbatim>\<open>__proto__\<close> is the
  prototype object itself: all of them are truthy, none is an array, and none has a
  property \<^verbatim>\<open>threads\<close>.
\<close>

definition proto_names :: "string list" where
  "proto_names =
     [''constructor'', ''__defineGetter__'', ''__defineSetter__'', ''hasOwnProperty'',
      ''__lookupGetter__'', ''__lookupSetter__'', ''isPrototypeOf'',
      ''propertyIsEnumerable'', ''toString'', ''valueOf'', ''__proto__'',
      ''toLocaleString'']"

datatype 'a slot = Own 'a | Builtin | Undefined

definition js_get :: "(string \<times> 'a) list \<Rightarrow> string \<Rightarrow> 'a slot" where
  "js_get ps k =
     (case map_of ps k of
        Some v \<Rightarrow> Own v
      | None \<Rightarrow> if k \<in> set proto_names then Builtin else Undefined)"

text \<open>The own values stored by the source are objects and arrays, which are truthy.\<close>

fun slot_truthy :: "'a slot \<Rightarrow> bool" where
  "slot_truthy (Own v) = True"
| "slot_truthy Builtin = True"
| "slot_truthy Undefined = False"

text \<open>
  \<^verbatim>\<open>store.threads\<close> is also written under a key sent by the client
  (\<^verbatim>\<open>store.threads[thread.id] = thread\<close>). For the key \<^verbatim>\<open>__proto__\<close> that assignment
  runs the setter inherited from \<^verbatim>\<open>Object.prototype\<close> and makes the thread object the
  prototype of \<^verbatim>\<open>store.threads\<close>; later reads then also find the nine fields of that
  object. \<open>proto_thread\<close> is this replaced prototype.
\<close>

record threads_obj =
  own_threads :: "(string \<times> thread) list"
  proto_thread :: "thread option"

definition thread_field :: "thread \<Rightarrow> string \<Rightarrow> jv option" where
  "thread_field p k =
     (if k = ''id'' then Some (JStr (th_id p))
      else if k = ''name'' then Some (JStr (th_name p))
      else if k = ''avatarUrl'' then Some (JStr (th_avatarUrl p))
      else if k = ''online'' then Some (JBool (th_online p))
      else if k = ''lastMessage'' then Some (JStr (th_lastMessage p))
      else if k = ''unread'' then Some (JNum (th_unread p))
      else if k = ''updatedAt'' then Some (JStr (th_updatedAt p))
      else if k = ''muted'' then Some (JBool (th_muted p))
      else if k = ''archived'' then Some (JBool (th_archived p))
      else None)"

datatype tslot =
    TOwn thread
  | TProto thread
  | TField jv
  | TBuiltin
  | TUndefined

definition threads_get :: "threads_obj \<Rightarrow> string \<Rightarrow> tslot" where
  "threads_get ts k =
     (case map_of (own_threads ts) k of
        Some t \<Rightarrow> TOwn t
      | None \<Rightarrow>
         (case proto_thread ts of
            None \<Rightarrow> if k \<in> set proto_names then TBuiltin else TUndefined
          | Some p \<Rightarrow>
             (case thread_field p k of
                Some v \<Rightarrow> TField v
              | None \<Rightarrow>
                 if k = ''__proto__'' then TProto p
                 else if k \<in> set proto_names then TBuiltin
                 else TUndefined)))"

fun tslot_truthy :: "tslot \<Rightarrow> bool" where
  "tslot_truthy (TOwn t) = True"
| "tslot_truthy (TProto p) = True"
| "tslot_truthy (TField v) = truthy v"
| "tslot_truthy TBuiltin = True"
| "tslot_truthy TUndefined = False"

definition threads_set :: "string \<Rightarrow> thread \<Rightarrow> threads_obj \<Rightarrow> threads_obj" where
  "threads_set k t ts =
     (if k = ''__proto__'' then ts\<lparr>proto_thread := Some t\<rparr>
      else ts\<lparr>own_threads := obj_put k t (own_threads ts)\<rparr>)"

text \<open>
  A field assignment \<^verbatim>\<open>th.f = v\<close> on a stored thread \<^verbatim>\<open>th\<close> changes the object that the
  own property \<open>k\<close> holds.
\<close>

definition own_thread_update :: "string \<Rightarrow> thread \<Rightarrow> threads_obj \<Rightarrow> threads_obj" where
  "own_thread_update k t ts = ts\<lparr>own_threads := obj_put k t (own_threads ts)\<rparr>"

subsection \<open>The dataset and the save timer\<close>

record store =
  threads :: threads_obj
  messages :: "(string \<times> message list) list"

text \<open>\<open>saveTimer\<close> holds whether \<^verbatim>\<open>_saveTimer\<close> is set, that is, whether a save is pending.\<close>

record state =
  db :: "(string \<times> store) list"
  saveTimer :: bool

definition initial :: state where
  "initial = \<lparr>db = [], saveTimer = False\<rparr>"

definition scheduleSave :: "state \<Rightarrow> state" where
  "scheduleSave s = (if saveTimer s then s else s\<lparr>saveTimer := True\<rparr>)"

definition empty_store :: store where
  "empty_store = \<lparr>threads = \<lparr>own_threads = [], proto_thread = None\<rparr>, messages = []\<rparr>"

definition userId_of :: "string option \<Rightarrow> string" where
  "userId_of hdr = (case hdr of None \<Rightarrow> ''demo'' | Some h \<Rightarrow> if h = [] then ''demo'' else h)"

text \<open>
  \<open>getUser\<close> returns the state after the lazy creation of the tenant and what
  \<^verbatim>\<open>db[userId]\<close> then is.
\<close>

definition getUser :: "string option \<Rightarrow> state \<Rightarrow> state \<times> store slot" where
  "getUser hdr s =
     (let userId = userId_of hdr;
          s1 = (if \<not> slot_truthy (js_get (db s) userId)
                then scheduleSave (s\<lparr>db := obj_put userId empty_store (db s)\<rparr>)
                else s)
      in (s1, js_get (db s1) userId))"

text \<open>
  The store handed out by \<open>getUser\<close> is the object held in \<^verbatim>\<open>db\<close>: what a route does to
  it is written back under the same key.
\<close>

definition set_store :: "string option \<Rightarrow> store \<Rightarrow> state \<Rightarrow> state" where
  "set_store hdr st s = s\<lparr>db := obj_put (userId_of hdr) st (db s)\<rparr>"

definition new_thread :: "string \<Rightarrow> string \<Rightarrow> thread" where
  "new_thread threadId now =
     \<lparr>th_id = threadId, th_name = threadId, th_avatarUrl = [], th_online = False,
      th_lastMessage = [], th_unread = Finite 0, th_updatedAt = now, th_muted = False,
      th_archived = False\<rparr>"

definition ensureThread :: "string \<Rightarrow> store \<Rightarrow> string \<Rightarrow> store" where
  "ensureThread now st threadId =
     (let st1 = (if \<not> tslot_truthy (threads_get (threads st) threadId)
                 then st\<lparr>threads := threads_set threadId (new_thread threadId now) (threads st)\<rparr>
                 else st)
      in if \<not> slot_truthy (js_get (messages st1) threadId)
         then st1\<lparr>messages := obj_put threadId [] (messages st1)\<rparr>
         else st1)"

section \<open>The routes\<close>

text \<open>
  Every route returns the state it leaves and its answer. \<open>TypeError\<close> is an exception
  thrown inside the handler, which the framework answers with status 500; what the
  handler wrote before it threw stays written. \<open>Not_a_list\<close> is the answer of
  \<^verbatim>\<open>res.json\<close> given a member of \<^verbatim>\<open>Object.prototype\<close> instead of an array.
  \<open>No_answer\<close> stands for the timer callback, which answers no request.
\<close>

datatype response =
    Threads "thread list"
  | Messages "message list"
  | Read_ok
  | Thread_created
  | Bad_request
  | Message_created string string
  | Message_exists string string
  | Not_a_list
  | TypeError
  | No_answer

subsection \<open>GET /v1/chat/threads\<close>

text \<open>
  The comparator \<^verbatim>\<open>(a, b) => new Date(b.updatedAt) - new Date(a.updatedAt)\<close>; \<open>None\<close> is
  \<^verbatim>\<open>NaN\<close>, which \<^verbatim>\<open>Array.prototype.sort\<close> reads as \<open>0\<close>.
\<close>

definition by_updatedAt :: "platform \<Rightarrow> thread \<Rightarrow> thread \<Rightarrow> int option" where
  "by_updatedAt P a b =
     (case (date_parse P (th_updatedAt b), date_parse P (th_updatedAt a)) of
        (Some tb, Some ta) \<Rightarrow> Some (tb - ta)
      | _ \<Rightarrow> None)"

definition positive :: "int option \<Rightarrow> bool" where
  "positive d = (case d of None \<Rightarrow> False | Some x \<Rightarrow> 0 < x)"

text \<open>
  \<^verbatim>\<open>Array.prototype.sort\<close> is stable. It is modelled as the stable insertion sort: with a
  comparator that is a consistent order this is the result the language prescribes; with
  an inconsistent one (an unparsable date among the keys) the language leaves the order to
  the engine: the list computed here is then one of the orders the language permits, which
  need not be the one a given engine returns, and nothing but its being a permutation is
  claimed about it below.
\<close>

fun js_insert :: "('a \<Rightarrow> 'a \<Rightarrow> int option) \<Rightarrow> 'a \<Rightarrow> 'a list \<Rightarrow> 'a list" where
  "js_insert cmp x [] = [x]"
| "js_insert cmp x (y # ys) =
     (if positive (cmp x y) then y # js_insert cmp x ys else x # y # ys)"

definition js_sort :: "('a \<Rightarrow> 'a \<Rightarrow> int option) \<Rightarrow> 'a list \<Rightarrow> 'a list" where
  "js_sort cmp xs = foldr (js_insert cmp) xs []"

definition listThreads :: "platform \<Rightarrow> string option \<Rightarrow> state \<Rightarrow> state \<times> response" where
  "listThreads P hdr s =
     (let (s1, store) = getUser hdr s
      in case store of
           Own st \<Rightarrow> (s1, Threads (js_sort (by_updatedAt P) (map snd (own_threads (threads st)))))
         | Builtin \<Rightarrow> (s1, Threads [])
         | Undefined \<Rightarrow> (s1, TypeError))"

subsection \<open>POST /v1/chat/threads\<close>

definition thread_of_body :: "platform \<Rightarrow> string \<Rightarrow> jv \<Rightarrow> jv \<Rightarrow> thread option" where
  "thread_of_body P now t t_id =
     do {
       i \<leftarrow> js_String P t_id;
       n \<leftarrow> js_String P (nullish_or (field t ''name'') t_id);
       a \<leftarrow> js_String P (nullish_or (field t ''avatarUrl'') (JStr []));
       l \<leftarrow> js_String P (nullish_or (field t ''lastMessage'') (JStr []));
       u \<leftarrow> js_Number P (nullish_or (field t ''unread'') (JNum (Finite 0)));
       d \<leftarrow> js_String P (nullish_or (field t ''updatedAt'') (JStr now));
       Some \<lparr>th_id = i, th_name = n, th_avatarUrl = a,
             th_online = truthy (nullish_or (field t ''online'') (JBool False)),
             th_lastMessage = l, th_unread = u, th_updatedAt = d,
             th_muted = truthy (nullish_or (field t ''muted'') (JBool False)),
             th_archived = truthy (nullish_or (field t ''archived'') (JBool False))\<rparr>
     }"

definition upsertThread ::
  "platform \<Rightarrow> string option \<Rightarrow> jv option \<Rightarrow> string \<Rightarrow> state \<Rightarrow> state \<times> response" where
  "upsertThread P hdr body now s =
     (let (s1, store) = getUser hdr s;
          t = body_or_empty body
      in case field t ''id'' of
           None \<Rightarrow> (s1, Bad_request)
         | Some t_id \<Rightarrow>
            if \<not> truthy t_id then (s1, Bad_request)
            else
              (case thread_of_body P now t t_id of
                 None \<Rightarrow> (s1, TypeError)
               | Some thread \<Rightarrow>
                  (case store of
                     Own st \<Rightarrow>
                       (let st1 = st\<lparr>threads := threads_set (th_id thread) thread (threads st)\<rparr>;
                            st2 = (if \<not> slot_truthy (js_get (messages st1) (th_id thread))
                                   then st1\<lparr>messages := obj_put (th_id thread) [] (messages st1)\<rparr>
                                   else st1)
                        in (scheduleSave (set_store hdr st2 s1), Thread_created))
                   | _ \<Rightarrow> (s1, TypeError))))"

subsection \<open>GET /v1/chat/threads/:id/messages\<close>

text \<open>
  \<^verbatim>\<open>new Date(m.at) > after\<close> compares the two time values; a comparison with \<^verbatim>\<open>NaN\<close> is
  false.
\<close>

definition date_gt :: "int option \<Rightarrow> int option \<Rightarrow> bool" where
  "date_gt a b = (case (a, b) of (Some x, Some y) \<Rightarrow> y < x | _ \<Rightarrow> False)"

text \<open>
  \<^verbatim>\<open>req.query.after ? new Date(req.query.after) : null\<close>, for a parameter that is absent or
  occurs once (a string). The outer \<open>None\<close> is \<^verbatim>\<open>null\<close>; a Date object, valid or not, is
  truthy.
\<close>

definition after_of :: "platform \<Rightarrow> string option \<Rightarrow> int option option" where
  "after_of P q =
     (case q of
        None \<Rightarrow> None
      | Some a \<Rightarrow> if a = [] then None else Some (date_parse P a))"

definition listMessages ::
  "platform \<Rightarrow> string option \<Rightarrow> string \<Rightarrow> string option \<Rightarrow> string \<Rightarrow> state \<Rightarrow> state \<times> response" where
  "listMessages P hdr threadId q now s =
     (let (s1, store) = getUser hdr s
      in case store of
           Own st \<Rightarrow>
             (let st1 = ensureThread now st threadId;
                  s2 = set_store hdr st1 s1
              in case js_get (messages st1) threadId of
                   Own msgs \<Rightarrow>
                     (case after_of P q of
                        None \<Rightarrow> (s2, Messages msgs)
                      | Some after \<Rightarrow>
                          (s2, Messages (filter (\<lambda>m. date_gt (date_parse P (msg_at m)) after) msgs)))
                 | Builtin \<Rightarrow>
                     (case after_of P q of
                        None \<Rightarrow> (s2, Not_a_list)
                      | Some after \<Rightarrow> (s2, TypeError))
                 | Undefined \<Rightarrow> (s2, Messages []))
         | _ \<Rightarrow> (s1, TypeError))"

subsection \<open>POST /v1/chat/threads/:id/read\<close>

text \<open>
  \<^verbatim>\<open>th.unread = 0\<close> on what \<^verbatim>\<open>store.threads[threadId]\<close> is: a stored thread; the replaced
  prototype; a primitive field value, on which an assignment is ignored (the file is not
  in strict mode); or a member of \<^verbatim>\<open>Object.prototype\<close>, where the assignment leaves the
  dataset as it is.
\<close>

definition markRead ::
  "string option \<Rightarrow> string \<Rightarrow> string \<Rightarrow> state \<Rightarrow> state \<times> response" where
  "markRead hdr threadId now s =
     (let (s1, store) = getUser hdr s
      in case store of
           Own st \<Rightarrow>
             (let st1 = ensureThread now st threadId
              in case threads_get (threads st1) threadId of
                   TOwn th \<Rightarrow>
                     (scheduleSave (set_store hdr
                        (st1\<lparr>threads := own_thread_update threadId (th\<lparr>th_unread := Finite 0\<rparr>) (threads st1)\<rparr>) s1),
                      Read_ok)
                 | TProto p \<Rightarrow>
                     (scheduleSave (set_store hdr
                        (st1\<lparr>threads := (threads st1)\<lparr>proto_thread := Some (p\<lparr>th_unread := Finite 0\<rparr>)\<rparr>\<rparr>) s1),
                      Read_ok)
                 | TUndefined \<Rightarrow> (set_store hdr st1 s1, TypeError)
                 | _ \<Rightarrow> (scheduleSave (set_store hdr st1 s1), Read_ok))
         | _ \<Rightarrow> (s1, TypeError))"

subsection \<open>POST /v1/chat/threads/:id/messages\<close>

text \<open>
  The message literal: \<^verbatim>\<open>id: b.id ? String(b.id) : crypto.randomUUID()\<close>,
  \<^verbatim>\<open>fromMe: Boolean(b.fromMe)\<close>, \<^verbatim>\<open>text: String(b.text ?? "")\<close>, \<^verbatim>\<open>at: serverAt\<close>.
  \<open>uuid\<close> is what \<^verbatim>\<open>crypto.randomUUID()\<close> returns when it is called.
\<close>

definition message_of_body :: "platform \<Rightarrow> string \<Rightarrow> string \<Rightarrow> jv \<Rightarrow> message option" where
  "message_of_body P serverAt uuid b =
     do {
       i \<leftarrow> (if truthy_opt (field b ''id'') then js_String P (the (field b ''id'')) else Some uuid);
       x \<leftarrow> js_String P (nullish_or (field b ''text'') (JStr []));
       Some \<lparr>msg_id = i, msg_fromMe = truthy_opt (field b ''fromMe''), msg_text = x,
             msg_at = serverAt\<rparr>
     }"

text \<open>
  \<open>now\<close> is the clock as \<open>ensureThread\<close> reads it, \<open>serverAt\<close> the clock as the route
  reads it afterwards. The two assignments \<^verbatim>\<open>th.lastMessage = msg.text\<close> and
  \<^verbatim>\<open>th.updatedAt = msg.at\<close> act on what \<^verbatim>\<open>store.threads[threadId]\<close> is, as
  \<^verbatim>\<open>th.unread = 0\<close> does in \<open>markRead\<close>.
\<close>

definition appendMessage ::
  "platform \<Rightarrow> string option \<Rightarrow> string \<Rightarrow> jv option \<Rightarrow> string \<Rightarrow> string \<Rightarrow> string \<Rightarrow> state
     \<Rightarrow> state \<times> response" where
  "appendMessage P hdr threadId body now serverAt uuid s =
     (let (s1, store) = getUser hdr s
      in case store of
           Own st \<Rightarrow>
             (let st1 = ensureThread now st threadId;
                  s2 = set_store hdr st1 s1
              in case message_of_body P serverAt uuid (body_or_empty body) of
                   None \<Rightarrow> (s2, TypeError)
                 | Some msg \<Rightarrow>
                    (case js_get (messages st1) threadId of
                       Own list \<Rightarrow>
                         (case find (\<lambda>m. msg_id m = msg_id msg) list of
                            Some existing \<Rightarrow> (s2, Message_exists (msg_id existing) (msg_at existing))
                          | None \<Rightarrow>
                             (let st2 = st1\<lparr>messages := obj_put threadId (list @ [msg]) (messages st1)\<rparr>
                              in case threads_get (threads st2) threadId of
                                   TOwn th \<Rightarrow>
                                     (scheduleSave (set_store hdr
                                        (st2\<lparr>threads := own_thread_update threadId
                                           (th\<lparr>th_lastMessage := msg_text msg, th_updatedAt := msg_at msg\<rparr>)
                                           (threads st2)\<rparr>) s1),
                                      Message_created (msg_id msg) (msg_at msg))
                                 | TProto p \<Rightarrow>
                                     (scheduleSave (set_store hdr
                                        (st2\<lparr>threads := (threads st2)\<lparr>proto_thread :=
                                           Some (p\<lparr>th_lastMessage := msg_text msg, th_updatedAt := msg_at msg\<rparr>)\<rparr>\<rparr>) s1),
                                      Message_created (msg_id msg) (msg_at msg))
                                 | TUndefined \<Rightarrow> (set_store hdr st2 s1, TypeError)
                                 | _ \<Rightarrow>
                                     (scheduleSave (set_store hdr st2 s1),
                                      Message_created (msg_id msg) (msg_at msg))))
                     | _ \<Rightarrow> (s2, TypeError)))
         | _ \<Rightarrow> (s1, TypeError))"

subsection \<open>Requests and runs\<close>

datatype request =
    ListThreads "string option"
  | UpsertThread "string option" "jv option" string
  | ListMessages "string option" string "string option" string
  | MarkRead "string option" string string
  | AppendMessage "string option" string "jv option" string string string
  | SaveTimerFires

text \<open>
  \<open>SaveTimerFires\<close> is the callback of \<open>scheduleSave\<close>: it clears \<^verbatim>\<open>_saveTimer\<close> and
  writes the file, which the dataset in memory does not depend on.
\<close>

fun handle :: "platform \<Rightarrow> request \<Rightarrow> state \<Rightarrow> state \<times> response" where
  "handle P (ListThreads hdr) s = listThreads P hdr s"
| "handle P (UpsertThread hdr body now) s = upsertThread P hdr body now s"
| "handle P (ListMessages hdr threadId q now) s = listMessages P hdr threadId q now s"
| "handle P (MarkRead hdr threadId now) s = markRead hdr threadId now s"
| "handle P (AppendMessage hdr threadId body now serverAt uuid) s =
     appendMessage P hdr threadId body now serverAt uuid s"
| "handle P SaveTimerFires s = (s\<lparr>saveTimer := False\<rparr>, No_answer)"

fun run :: "platform \<Rightarrow> request list \<Rightarrow> state \<Rightarrow> state" where
  "run P [] s = s"
| "run P (r # rs) s = run P rs (fst (handle P r s))"

section \<open>Persistence\<close>

text \<open>
  The dataset as the ECMAScript value that \<^verbatim>\<open>JSON.stringify(db, null, 2)\<close> walks: the own
  enumerable properties of every object, in enumeration order. The fields of a thread and
  of a message stand in the order of their object literals. A prototype is not part of
  that value.
\<close>

definition thread_value :: "thread \<Rightarrow> jv" where
  "thread_value t =
     JObj [(''id'', JStr (th_id t)), (''name'', JStr (th_name t)),
           (''avatarUrl'', JStr (th_avatarUrl t)), (''online'', JBool (th_online t)),
           (''lastMessage'', JStr (th_lastMessage t)), (''unread'', JNum (th_unread t)),
           (''updatedAt'', JStr (th_updatedAt t)), (''muted'', JBool (th_muted t)),
           (''archived'', JBool (th_archived t))]"

definition message_value :: "message \<Rightarrow> jv" where
  "message_value m =
     JObj [(''id'', JStr (msg_id m)), (''fromMe'', JBool (msg_fromMe m)),
           (''text'', JStr (msg_text m)), (''at'', JStr (msg_at m))]"

definition store_value :: "store \<Rightarrow> jv" where
  "store_value st =
     JObj [(''threads'', JObj (map (\<lambda>(k, t). (k, thread_value t)) (own_threads (threads st)))),
           (''messages'', JObj (map (\<lambda>(k, ms). (k, JArr (map message_value ms))) (messages st)))]"

definition db_value :: "(string \<times> store) list \<Rightarrow> jv" where
  "db_value d = JObj (map (\<lambda>(u, st). (u, store_value st)) d)"

text \<open>
  The file holds text. What matters of it is whether it is there, whether it is empty,
  whether \<^verbatim>\<open>JSON.parse\<close> accepts it, and the value it then denotes. \<open>json_of v\<close> is the
  value denoted by the text \<^verbatim>\<open>JSON.stringify\<close> writes for \<open>v\<close>: JSON has no notation for
  \<^verbatim>\<open>NaN\<close> and the infinities, which are written as \<^verbatim>\<open>null\<close>.
\<close>

datatype file_content = Missing | Empty_text | Unparsable | Json_text jv

fun json_of :: "jv \<Rightarrow> jv" where
  "json_of JNull = JNull"
| "json_of (JBool b) = JBool b"
| "json_of (JNum n) = (case n of Finite q \<Rightarrow> JNum (Finite q) | _ \<Rightarrow> JNull)"
| "json_of (JStr s) = JStr s"
| "json_of (JArr xs) = JArr (map json_of xs)"
| "json_of (JObj ps) = JObj (map (\<lambda>(k, v). (k, json_of v)) ps)"

text \<open>
  \<^verbatim>\<open>fs.writeFileSync\<close> either writes the whole text or throws; \<open>saveDbNow\<close> catches and
  logs the exception, and the file is then whatever the failed write left.
\<close>

datatype write_outcome = Written | Failed file_content

definition saveDbNow :: "write_outcome \<Rightarrow> (string \<times> store) list \<Rightarrow> file_content" where
  "saveDbNow w d = (case w of Written \<Rightarrow> Json_text (json_of (db_value d)) | Failed f \<Rightarrow> f)"

text \<open>\<open>loadDb\<close> returns the value it assigns to \<^verbatim>\<open>db\<close>.\<close>

definition loadDb :: "file_content \<Rightarrow> jv" where
  "loadDb f =
     (case f of
        Missing \<Rightarrow> JObj []
      | Empty_text \<Rightarrow> JObj []
      | Unparsable \<Rightarrow> JObj []
      | Json_text v \<Rightarrow> v)"

definition finite_number :: "jsnum \<Rightarrow> bool" where
  "finite_number n = (case n of Finite q \<Rightarrow> True | _ \<Rightarrow> False)"

definition finite_unreads :: "(string \<times> store) list \<Rightarrow> bool" where
  "finite_unreads d =
     list_all (\<lambda>(u, st). list_all (\<lambda>(k, t). finite_number (th_unread t)) (own_threads (threads st))) d"

text \<open>
  \<open>loadDb\<close> assigns the parsed value to \<^verbatim>\<open>db\<close> as it is, and the routes then use it as the
  dataset: they read \<^verbatim>\<open>db[userId].threads\<close> and \<^verbatim>\<open>db[userId].messages\<close>, the fields of
  the threads and the fields of the messages by their names. \<open>db_of_value v\<close> is the dataset
  that these reads find in the value \<open>v\<close>: every tenant with its two maps, every thread with
  its nine fields and every message with its four, each of the type the routes store
  there. It is \<open>None\<close> when a property is missing or holds a value of another type. The
  objects of a parsed text have the prototype \<^verbatim>\<open>Object.prototype\<close>.
\<close>

definition str_field :: "jv \<Rightarrow> string \<Rightarrow> string option" where
  "str_field v k = (case field v k of Some (JStr x) \<Rightarrow> Some x | _ \<Rightarrow> None)"

definition bool_field :: "jv \<Rightarrow> string \<Rightarrow> bool option" where
  "bool_field v k = (case field v k of Some (JBool x) \<Rightarrow> Some x | _ \<Rightarrow> None)"

definition num_field :: "jv \<Rightarrow> string \<Rightarrow> jsnum option" where
  "num_field v k = (case field v k of Some (JNum x) \<Rightarrow> Some x | _ \<Rightarrow> None)"

definition obj_field :: "jv \<Rightarrow> string \<Rightarrow> (string \<times> jv) list option" where
  "obj_field v k = (case field v k of Some (JObj ps) \<Rightarrow> Some ps | _ \<Rightarrow> None)"

definition thread_of_value :: "jv \<Rightarrow> thread option" where
  "thread_of_value v =
     do {
       i \<leftarrow> str_field v ''id'';
       n \<leftarrow> str_field v ''name'';
       a \<leftarrow> str_field v ''avatarUrl'';
       on \<leftarrow> bool_field v ''online'';
       l \<leftarrow> str_field v ''lastMessage'';
       u \<leftarrow> num_field v ''unread'';
       d \<leftarrow> str_field v ''updatedAt'';
       m \<leftarrow> bool_field v ''muted'';
       ar \<leftarrow> bool_field v ''archived'';
       Some \<lparr>th_id = i, th_name = n, th_avatarUrl = a, th_online = on, th_lastMessage = l,
             th_unread = u, th_updatedAt = d, th_muted = m, th_archived = ar\<rparr>
     }"

definition message_of_value :: "jv \<Rightarrow> message option" where
  "message_of_value v =
     do {
       i \<leftarrow> str_field v ''id'';
       f \<leftarrow> bool_field v ''fromMe'';
       x \<leftarrow> str_field v ''text'';
       a \<leftarrow> str_field v ''at'';
       Some \<lparr>msg_id = i, msg_fromMe = f, msg_text = x, msg_at = a\<rparr>
     }"

definition messages_of_value :: "jv \<Rightarrow> message list option" where
  "messages_of_value v = (case v of JArr xs \<Rightarrow> those (map message_of_value xs) | _ \<Rightarrow> None)"

text \<open>The own properties of an object, each value read by \<open>f\<close>, in enumeration order.\<close>

definition entries :: "('a \<Rightarrow> 'b option) \<Rightarrow> (string \<times> 'a) list \<Rightarrow> (string \<times> 'b) list option" where
  "entries f ps = those (map (\<lambda>(k, v). map_option (Pair k) (f v)) ps)"

definition store_of_value :: "jv \<Rightarrow> store option" where
  "store_of_value v =
     do {
       ts \<leftarrow> obj_field v ''threads'';
       ms \<leftarrow> obj_field v ''messages'';
       own \<leftarrow> entries thread_of_value ts;
       lists \<leftarrow> entries messages_of_value ms;
       Some \<lparr>threads = \<lparr>own_threads = own, proto_thread = None\<rparr>, messages = lists\<rparr>
     }"

definition db_of_value :: "jv \<Rightarrow> (string \<times> store) list option" where
  "db_of_value v = (case v of JObj ps \<Rightarrow> entries store_of_value ps | _ \<Rightarrow> None)"

text \<open>
  \<open>own_prototypes d\<close>: no tenant of \<open>d\<close> has had the prototype of its \<^verbatim>\<open>store.threads\<close>
  replaced.
\<close>

definition own_prototypes :: "(string \<times> store) list \<Rightarrow> bool" where
  "own_prototypes d = list_all (\<lambda>(u, st). proto_thread (threads st) = None) d"

section \<open>A platform for the examples\<close>

text \<open>
  The examples below are evaluated on this instance. It knows the time values of the
  four timestamps the examples use, and converts no number that the examples contain:
  \<open>number_to_string\<close> and \<open>string_to_number\<close> are only right on the values written out.
\<close>

definition sample_platform :: platform where
  "sample_platform =
     \<lparr>date_parse = map_of
        [(''2026-01-01T00:00:00.000Z'', 1767225600000),
         (''2026-01-01T00:00:01.000Z'', 1767225601000),
         (''2026-01-02T00:00:00.000Z'', 1767312000000),
         (''2999-01-01T00:00:00.000Z'', 32472144000000)],
      number_to_string = (\<lambda>n. case n of NaN \<Rightarrow> ''NaN'' | PosInfinity \<Rightarrow> ''Infinity''
                                   | NegInfinity \<Rightarrow> ''-Infinity'' | Finite q \<Rightarrow> ''0''),
      string_to_number = (\<lambda>s. if s = [] then Finite 0 else NaN)\<rparr>"

section \<open>Notions used by the claims\<close>

text \<open>A message is later than the time \<open>T\<close> when its \<^verbatim>\<open>at\<close> is a date after \<open>T\<close>.\<close>

definition later_than :: "platform \<Rightarrow> int \<Rightarrow> message \<Rightarrow> bool" where
  "later_than P T m = (case date_parse P (msg_at m) of None \<Rightarrow> False | Some x \<Rightarrow> T < x)"

text \<open>A dataset for the examples: one tenant with one thread of two messages.\<close>

definition sample_messages :: "message list" where
  "sample_messages =
     [\<lparr>msg_id = ''m1'', msg_fromMe = True, msg_text = ''hi'', msg_at = ''2026-01-01T00:00:00.000Z''\<rparr>,
      \<lparr>msg_id = ''m2'', msg_fromMe = False, msg_text = ''ho'', msg_at = ''2026-01-02T00:00:00.000Z''\<rparr>]"

definition sample_state :: state where
  "sample_state =
     \<lparr>db = [(''demo'',
        \<lparr>threads = \<lparr>own_threads =
            [(''t1'', (new_thread ''t1'' ''2026-01-01T00:00:00.000Z'')
                \<lparr>th_lastMessage := ''ho'', th_updatedAt := ''2026-01-02T00:00:00.000Z''\<rparr>)],
            proto_thread = None\<rparr>,
         messages = [(''t1'', sample_messages)]\<rparr>)],
      saveTimer = False\<rparr>"

text \<open>
  Notions for the order of \<open>listThreads\<close>: a thread is dated when its \<^verbatim>\<open>updatedAt\<close> is a
  date; \<open>not_older P a b\<close> when both are dated and \<open>a\<close> was updated at or after \<open>b\<close>;
  \<open>older_than P T t\<close> when \<open>t\<close> is dated and was updated before the time \<open>T\<close>.
\<close>

definition dated :: "platform \<Rightarrow> thread \<Rightarrow> bool" where
  "dated P t = (date_parse P (th_updatedAt t) \<noteq> None)"

definition not_older :: "platform \<Rightarrow> thread \<Rightarrow> thread \<Rightarrow> bool" where
  "not_older P a b =
     (case (date_parse P (th_updatedAt a), date_parse P (th_updatedAt b)) of
        (Some x, Some y) \<Rightarrow> y \<le> x
      | _ \<Rightarrow> False)"

definition older_than :: "platform \<Rightarrow> int \<Rightarrow> thread \<Rightarrow> bool" where
  "older_than P T t = (case date_parse P (th_updatedAt t) of None \<Rightarrow> False | Some x \<Rightarrow> x < T)"

text \<open>
  The sample dataset after a message to the new thread \<^verbatim>\<open>t2\<close>, stamped in 2999, and its
  two threads.
\<close>

definition sample_after_append :: state where
  "sample_after_append =
     fst (appendMessage sample_platform None ''t2''
            (Some (JObj [(''id'', JStr ''m9''), (''text'', JStr ''yo'')]))
            ''2999-01-01T00:00:00.000Z'' ''2999-01-01T00:00:00.000Z'' ''u-1'' sample_state)"

definition sample_t1 :: thread where
  "sample_t1 = (new_thread ''t1'' ''2026-01-01T00:00:00.000Z'')
      \<lparr>th_lastMessage := ''ho'', th_updatedAt := ''2026-01-02T00:00:00.000Z''\<rparr>"

definition sample_t2 :: thread where
  "sample_t2 = (new_thread ''t2'' ''2999-01-01T00:00:00.000Z'')\<lparr>th_lastMessage := ''yo''\<rparr>"

text \<open>
  A call of \<open>appendMessage\<close> addressed to the tenant of \<open>hdr\<close>, the thread \<open>tid\<close> and the
  message id \<open>m\<close>: its message literal is built and carries the id \<open>m\<close>.
\<close>

definition addressed :: "platform \<Rightarrow> string option \<Rightarrow> string \<Rightarrow> string \<Rightarrow> request \<Rightarrow> bool" where
  "addressed P hdr tid m r =
     (case r of
        AppendMessage h t b now serverAt uuid \<Rightarrow>
          userId_of h = userId_of hdr \<and> t = tid \<and>
          (case message_of_body P serverAt uuid (body_or_empty b) of
             None \<Rightarrow> False
           | Some msg \<Rightarrow> msg_id msg = m)
      | _ \<Rightarrow> False)"

text \<open>
  What \<open>appendMessage\<close> makes of the store once the id is new: the message is pushed, and
  the preview of the thread is updated on what \<^verbatim>\<open>store.threads[threadId]\<close> is.
\<close>

definition after_push :: "store \<Rightarrow> string \<Rightarrow> message list \<Rightarrow> message \<Rightarrow> store" where
  "after_push st1 tid list msg =
     (let st2 = st1\<lparr>messages := obj_put tid (list @ [msg]) (messages st1)\<rparr>
      in case threads_get (threads st2) tid of
           TOwn th \<Rightarrow> st2\<lparr>threads := own_thread_update tid
               (th\<lparr>th_lastMessage := msg_text msg, th_updatedAt := msg_at msg\<rparr>) (threads st2)\<rparr>
         | TProto p \<Rightarrow> st2\<lparr>threads := (threads st2)\<lparr>proto_thread :=
               Some (p\<lparr>th_lastMessage := msg_text msg, th_updatedAt := msg_at msg\<rparr>)\<rparr>\<rparr>
         | _ \<Rightarrow> st2)"

text \<open>A first message on the empty dataset, and two later calls with its id.\<close>

definition sample_created :: state where
  "sample_created =
     fst (appendMessage sample_platform None ''t1''
            (Some (JObj [(''id'', JStr ''m1''), (''text'', JStr ''hi'')]))
            ''2026-01-01T00:00:00.000Z'' ''2026-01-01T00:00:00.000Z'' ''u-1'' initial)"

definition sample_retries :: "request list" where
  "sample_retries =
     [AppendMessage None ''t1'' (Some (JObj [(''id'', JStr ''m1''), (''text'', JStr ''again'')]))
        ''2026-01-01T00:00:01.000Z'' ''2026-01-01T00:00:01.000Z'' ''u-2'',
      AppendMessage (Some ''demo'') ''t1'' (Some (JObj [(''id'', JStr ''m1'')]))
        ''2026-01-02T00:00:00.000Z'' ''2026-01-02T00:00:00.000Z'' ''u-3'']"

text \<open>
  Notions for the order of the messages: the server times that the \<open>appendMessage\<close> calls
  of a run read, in call order; the message list stored for a tenant and a thread (empty
  when there is none); and the order of two timestamps that are both dates.
\<close>

fun stamps :: "request list \<Rightarrow> string list" where
  "stamps [] = []"
| "stamps (AppendMessage hdr threadId body now serverAt uuid # rs) = serverAt # stamps rs"
| "stamps (r # rs) = stamps rs"

definition store_messages :: "store \<Rightarrow> string \<Rightarrow> message list" where
  "store_messages st tid = (case js_get (messages st) tid of Own list \<Rightarrow> list | _ \<Rightarrow> [])"

definition stored :: "state \<Rightarrow> string \<Rightarrow> string \<Rightarrow> message list" where
  "stored s u tid = (case js_get (db s) u of Own st \<Rightarrow> store_messages st tid | _ \<Rightarrow> [])"



text \<open>Requests of other kinds, for a run between a message and its repetition.\<close>

definition sample_between :: "request list" where
  "sample_between =
     [MarkRead None ''t1'' ''2026-01-01T00:00:01.000Z'',
      AppendMessage None ''t1'' (Some (JObj [(''text'', JStr ''more'')]))
        ''2026-01-01T00:00:01.000Z'' ''2026-01-01T00:00:01.000Z'' ''u-7'',
      UpsertThread None (Some (JObj [(''id'', JStr ''t1''), (''name'', JStr ''Ada'')]))
        ''2026-01-02T00:00:00.000Z'',
      SaveTimerFires]"

text \<open>
  A key is inherited when it names a member of \<^verbatim>\<open>Object.prototype\<close>: a read of that key on
  an object without such an own property finds the member. \<open>thread_fields\<close> are the property
  names of a thread object, which a read on \<^verbatim>\<open>store.threads\<close> finds as well once the
  prototype of that object has been replaced by a thread.
\<close>

definition inherited :: "string \<Rightarrow> bool" where
  "inherited k = (k \<in> set proto_names)"

definition thread_fields :: "string list" where
  "thread_fields =
     [''id'', ''name'', ''avatarUrl'', ''online'', ''lastMessage'', ''unread'', ''updatedAt'',
      ''muted'', ''archived'']"

text \<open>The thread that a tenant holds as an own property of \<^verbatim>\<open>store.threads\<close>, if any.\<close>

definition thread_of :: "state \<Rightarrow> string \<Rightarrow> string \<Rightarrow> thread option" where
  "thread_of s u k =
     (case js_get (db s) u of Own st \<Rightarrow> map_of (own_threads (threads st)) k | _ \<Rightarrow> None)"

text \<open>The message that the first call of the examples stores.\<close>

definition sample_first :: message where
  "sample_first =
     \<lparr>msg_id = ''m1'', msg_fromMe = False, msg_text = ''hi'',
      msg_at = ''2026-01-01T00:00:00.000Z''\<rparr>"

text \<open>
  A run in which the prototype of \<^verbatim>\<open>store.threads\<close> is replaced by a thread named \<^verbatim>\<open>x\<close>, a
  message is posted to the thread id \<^verbatim>\<open>name\<close>, the prototype is replaced again by a thread
  with the empty name, and the pending save is written.
\<close>

definition sample_shadowed :: "request list" where
  "sample_shadowed =
     [UpsertThread None (Some (JObj [(''id'', JStr ''__proto__''), (''name'', JStr ''x'')]))
        ''2026-01-01T00:00:00.000Z'',
      AppendMessage None ''name'' (Some (JObj [(''id'', JStr ''m1''), (''text'', JStr ''hi'')]))
        ''2026-01-01T00:00:00.000Z'' ''2026-01-01T00:00:00.000Z'' ''u-1'',
      UpsertThread None (Some (JObj [(''id'', JStr ''__proto__''), (''name'', JStr [])]))
        ''2026-01-01T00:00:01.000Z'',
      SaveTimerFires]"

text \<open>The same message posted twice to the thread id \<^verbatim>\<open>constructor\<close>.\<close>

definition sample_inherited :: "request list" where
  "sample_inherited =
     [AppendMessage None ''constructor''
        (Some (JObj [(''id'', JStr ''m1''), (''text'', JStr ''hi'')]))
        ''2026-01-01T00:00:00.000Z'' ''2026-01-01T00:00:00.000Z'' ''u-1'',
      AppendMessage None ''constructor''
        (Some (JObj [(''id'', JStr ''m1''), (''text'', JStr ''hi'')]))
        ''2026-01-01T00:00:01.000Z'' ''2026-01-01T00:00:01.000Z'' ''u-2'']"

text \<open>
  A request is a plain upsert unless it is an \<open>upsertThread\<close> that passes the validation
  and builds a thread under the id \<^verbatim>\<open>__proto__\<close> or with an \<^verbatim>\<open>unread\<close> that is no finite
  number. A thread map can
  be saved when its prototype has not been replaced and every \<^verbatim>\<open>unread\<close> in it is a finite
  number; a dataset, when the thread map of every tenant can.
\<close>

definition plain_upsert :: "platform \<Rightarrow> request \<Rightarrow> bool" where
  "plain_upsert P r =
     (case r of
        UpsertThread hdr body now \<Rightarrow>
          (case field (body_or_empty body) ''id'' of
             None \<Rightarrow> True
           | Some t_id \<Rightarrow>
              if \<not> truthy t_id then True
              else
                (case thread_of_body P now (body_or_empty body) t_id of
                   None \<Rightarrow> True
                 | Some thread \<Rightarrow>
                    th_id thread \<noteq> ''__proto__'' \<and> finite_number (th_unread thread)))
      | _ \<Rightarrow> True)"

definition savable_threads :: "threads_obj \<Rightarrow> bool" where
  "savable_threads ts =
     (proto_thread ts = None \<and>
      list_all (\<lambda>(k, t). finite_number (th_unread t)) (own_threads ts))"

definition savable :: "(string \<times> store) list \<Rightarrow> bool" where
  "savable d = list_all (\<lambda>(u, st). savable_threads (threads st)) d"

text \<open>The first message of the examples followed by the requests of other kinds.\<close>

definition sample_history :: "request list" where
  "sample_history =
     AppendMessage None ''t1'' (Some (JObj [(''id'', JStr ''m1''), (''text'', JStr ''hi'')]))
       ''2026-01-01T00:00:00.000Z'' ''2026-01-01T00:00:00.000Z'' ''u-1'' # sample_between"

section \<open>Reading and writing own properties\<close>

lemma map_of_put_index:
  "map_of ps k = None \<Longrightarrow>
   map_of (put_index k v ps) k' = (if k' = k then Some v else map_of ps k')"
  by (induction ps) (auto split: if_splits)

lemma map_of_put_existing:
  "map_of (put_existing k v ps) k' =
     (if k' = k then (if map_of ps k = None then None else Some v) else map_of ps k')"
  by (induction ps) auto

lemma map_of_obj_put: "map_of (obj_put k v ps) k' = (if k' = k then Some v else map_of ps k')"
  unfolding obj_put_def
  by (auto simp: map_of_put_index map_of_put_existing map_add_def split: option.splits)

lemma js_get_obj_put:
  "js_get (obj_put k v ps) k' = (if k' = k then Own v else js_get ps k')"
  by (simp add: js_get_def map_of_obj_put)

lemma put_existing_same: "map_of ps k = Some v \<Longrightarrow> put_existing k v ps = ps"
  by (induction ps) (auto split: if_splits)

lemma js_get_Own_iff: "js_get ps k = Own v \<longleftrightarrow> map_of ps k = Some v"
  by (simp add: js_get_def split: option.splits)

lemma obj_put_same: "js_get ps k = Own v \<Longrightarrow> obj_put k v ps = ps"
  by (simp add: js_get_Own_iff obj_put_def put_existing_same)

lemma getUser_known:
  "slot_truthy (js_get (db s) (userId_of hdr)) \<Longrightarrow>
   getUser hdr s = (s, js_get (db s) (userId_of hdr))"
  by (simp add: getUser_def)

lemma getUser_new:
  "\<not> slot_truthy (js_get (db s) (userId_of hdr)) \<Longrightarrow>
   getUser hdr s =
     (\<lparr>db = obj_put (userId_of hdr) empty_store (db s), saveTimer = True\<rparr>, Own empty_store)"
  by (simp add: getUser_def Let_def scheduleSave_def js_get_obj_put)

lemma getUser_cases:
  obtains st where "getUser hdr s = (s, Own st)" "js_get (db s) (userId_of hdr) = Own st"
  | "getUser hdr s = (s, Builtin)" "js_get (db s) (userId_of hdr) = Builtin"
  | "getUser hdr s =
       (\<lparr>db = obj_put (userId_of hdr) empty_store (db s), saveTimer = True\<rparr>, Own empty_store)"
    "js_get (db s) (userId_of hdr) = Undefined"
proof (cases "js_get (db s) (userId_of hdr)")
  case (Own st)
  then show ?thesis using that(1) by (simp add: getUser_known)
next
  case Builtin
  then show ?thesis using that(2) by (simp add: getUser_known)
next
  case Undefined
  then show ?thesis using that(3) by (simp add: getUser_new)
qed

lemma getUser_lookup: "getUser hdr s = (s1, sl) \<Longrightarrow> js_get (db s1) (userId_of hdr) = sl"
  by (auto simp: getUser_def Let_def)

lemma set_store_same: "js_get (db s) (userId_of hdr) = Own st \<Longrightarrow> set_store hdr st s = s"
  by (simp add: set_store_def obj_put_same)

lemma ensureThread_known:
  "tslot_truthy (threads_get (threads st) k) \<Longrightarrow> slot_truthy (js_get (messages st) k) \<Longrightarrow>
   ensureThread now st k = st"
  by (simp add: ensureThread_def)

lemma messages_ensureThread:
  "js_get (messages (ensureThread now st k)) k' =
     (if k' = k \<and> js_get (messages st) k = Undefined then Own [] else js_get (messages st) k')"
  by (cases "js_get (messages st) k") (auto simp: ensureThread_def Let_def js_get_obj_put)

lemma threads_get_own_update:
  "threads_get (own_thread_update k t ts) k' = (if k' = k then TOwn t else threads_get ts k')"
  by (simp add: threads_get_def own_thread_update_def map_of_obj_put split: option.splits)

lemma threads_get_set:
  "k \<noteq> ''__proto__'' \<Longrightarrow>
   threads_get (threads_set k t ts) k' = (if k' = k then TOwn t else threads_get ts k')"
  by (simp add: threads_get_def threads_set_def map_of_obj_put split: option.splits)

lemma falsy_not_proto: "\<not> tslot_truthy (threads_get ts k) \<Longrightarrow> k \<noteq> ''__proto__''"
  by (auto simp: threads_get_def proto_names_def thread_field_def split: option.splits if_splits)

lemma threads_ensureThread:
  "threads_get (threads (ensureThread now st k)) k' =
     (if k' = k \<and> \<not> tslot_truthy (threads_get (threads st) k) then TOwn (new_thread k now)
      else threads_get (threads st) k')"
  by (auto simp: ensureThread_def Let_def threads_get_set falsy_not_proto)

lemma ensureThread_threads_known:
  "tslot_truthy (threads_get (threads st) k) \<Longrightarrow> threads (ensureThread now st k) = threads st"
  by (simp add: ensureThread_def Let_def)

lemma ensureThread_messages_known:
  "slot_truthy (js_get (messages st) k) \<Longrightarrow> messages (ensureThread now st k) = messages st"
  by (simp add: ensureThread_def Let_def)

lemma threads_get_TOwn: "threads_get ts k = TOwn t \<longleftrightarrow> map_of (own_threads ts) k = Some t"
  by (auto simp: threads_get_def split: option.splits)

lemma thread_field_proto: "thread_field p ''__proto__'' = None"
  by (simp add: thread_field_def)

lemma threads_get_TProto:
  "threads_get ts k = TProto p \<Longrightarrow>
   map_of (own_threads ts) k = None \<and> proto_thread ts = Some p \<and> k = ''__proto__''"
  by (simp add: threads_get_def split: option.splits if_splits)

lemma threads_get_proto_update:
  "threads_get ts k = TProto p \<Longrightarrow>
   threads_get (ts\<lparr>proto_thread := Some p'\<rparr>) k = TProto p'"
  by (drule threads_get_TProto) (auto simp: threads_get_def thread_field_proto)

section \<open>What the routes do to the stored messages\<close>

text \<open>
  The routes that do not append leave every stored message list as it is; \<open>appendMessage\<close>
  leaves it or adds one message at its end, with an id that the list did not hold.
\<close>

lemma find_snoc_new:
  "find Q xs = None \<Longrightarrow> Q x \<Longrightarrow> find Q (xs @ [x]) = Some x"
  by (induction xs) (auto split: if_splits)

lemma filter_find_None: "find Q xs = None \<Longrightarrow> filter Q xs = []"
  by (induction xs) (auto split: if_splits)

lemma find_append_found: "find Q xs = Some e \<Longrightarrow> find Q (xs @ ys) = Some e"
  by (induction xs) (auto split: if_splits)

lemma find_None_iff_ids: "find (\<lambda>x. msg_id x = i) xs = None \<longleftrightarrow> i \<notin> msg_id ` set xs"
  by (induction xs) auto


lemma listMessages_state:
  "fst (listMessages P hdr tid q now s) =
     (case snd (getUser hdr s) of
        Own st \<Rightarrow> set_store hdr (ensureThread now st tid) (fst (getUser hdr s))
      | _ \<Rightarrow> fst (getUser hdr s))"
  by (cases "getUser hdr s")
     (simp add: listMessages_def Let_def split: slot.splits option.splits)

lemma appendMessage_created:
  assumes "appendMessage P hdr tid body now serverAt uuid s = (s', Message_created m stamp)"
  obtains st msg list where
    "snd (getUser hdr s) = Own st"
    "message_of_body P serverAt uuid (body_or_empty body) = Some msg"
    "msg_id msg = m" "msg_at msg = stamp" "stamp = serverAt"
    "js_get (messages (ensureThread now st tid)) tid = Own list"
    "find (\<lambda>x. msg_id x = m) list = None"
    "saveTimer s'"
    "db s' = obj_put (userId_of hdr)
       (let st2 = (ensureThread now st tid)
                    \<lparr>messages := obj_put tid (list @ [msg]) (messages (ensureThread now st tid))\<rparr>
        in case threads_get (threads st2) tid of
             TOwn th \<Rightarrow> st2\<lparr>threads := own_thread_update tid
                 (th\<lparr>th_lastMessage := msg_text msg, th_updatedAt := msg_at msg\<rparr>) (threads st2)\<rparr>
           | TProto p \<Rightarrow> st2\<lparr>threads := (threads st2)\<lparr>proto_thread :=
                 Some (p\<lparr>th_lastMessage := msg_text msg, th_updatedAt := msg_at msg\<rparr>)\<rparr>\<rparr>
           | _ \<Rightarrow> st2)
       (db (fst (getUser hdr s)))"
proof -
  obtain s1 sl where g: "getUser hdr s = (s1, sl)" by (cases "getUser hdr s")
  from assms g obtain st where sl: "sl = Own st"
    by (cases sl) (simp_all add: appendMessage_def)
  from assms g sl obtain msg where
    mb: "message_of_body P serverAt uuid (body_or_empty body) = Some msg"
    by (cases "message_of_body P serverAt uuid (body_or_empty body)")
       (simp_all add: appendMessage_def Let_def)
  from assms g sl mb obtain list where
    l: "js_get (messages (ensureThread now st tid)) tid = Own list"
    by (cases "js_get (messages (ensureThread now st tid)) tid")
       (simp_all add: appendMessage_def Let_def)
  from assms g sl mb l have f: "find (\<lambda>x. msg_id x = msg_id msg) list = None"
    by (cases "find (\<lambda>x. msg_id x = msg_id msg) list")
       (simp_all add: appendMessage_def Let_def)
  have stamped: "msg_at msg = serverAt"
    using mb by (auto simp: message_of_body_def split: if_splits Option.bind_splits)
  from assms g sl mb l f have r:
    "msg_id msg = m \<and> msg_at msg = stamp \<and> saveTimer s' \<and>
     db s' = obj_put (userId_of hdr)
       (let st2 = (ensureThread now st tid)
                    \<lparr>messages := obj_put tid (list @ [msg]) (messages (ensureThread now st tid))\<rparr>
        in case threads_get (threads st2) tid of
             TOwn th \<Rightarrow> st2\<lparr>threads := own_thread_update tid
                 (th\<lparr>th_lastMessage := msg_text msg, th_updatedAt := msg_at msg\<rparr>) (threads st2)\<rparr>
           | TProto p \<Rightarrow> st2\<lparr>threads := (threads st2)\<lparr>proto_thread :=
                 Some (p\<lparr>th_lastMessage := msg_text msg, th_updatedAt := msg_at msg\<rparr>)\<rparr>\<rparr>
           | _ \<Rightarrow> st2)
       (db s1)"
    by (auto simp: appendMessage_def Let_def set_store_def scheduleSave_def split: tslot.splits)
  show ?thesis
    using that [of st msg list] g sl mb l f stamped r by auto
qed

lemma messages_after_push:
  "messages (after_push st1 tid list msg) = obj_put tid (list @ [msg]) (messages st1)"
  by (cases "threads_get (threads st1) tid") (simp_all add: after_push_def)

lemma threads_after_push:
  "tslot_truthy (threads_get (threads st1) tid) \<Longrightarrow>
   tslot_truthy (threads_get (threads (after_push st1 tid list msg)) tid)"
proof (cases "threads_get (threads st1) tid")
  case (TOwn th)
  then show ?thesis by (simp add: after_push_def threads_get_own_update)
next
  case (TProto p)
  then show ?thesis by (simp add: after_push_def threads_get_proto_update)
qed (simp_all add: after_push_def)


lemma appendMessage_created_state:
  assumes "appendMessage P hdr tid body now serverAt uuid s = (s', Message_created m stamp)"
  obtains st' msg list where
    "js_get (db s') (userId_of hdr) = Own st'"
    "tslot_truthy (threads_get (threads st') tid)"
    "js_get (messages st') tid = Own (list @ [msg])"
    "find (\<lambda>x. msg_id x = m) list = None"
    "msg_id msg = m" "msg_at msg = stamp" "stamp = serverAt"
    "message_of_body P serverAt uuid (body_or_empty body) = Some msg"
proof (rule appendMessage_created [OF assms])
  fix st msg list
  assume mb: "message_of_body P serverAt uuid (body_or_empty body) = Some msg"
    and m: "msg_id msg = m" and a: "msg_at msg = stamp" and sa: "stamp = serverAt"
    and l: "js_get (messages (ensureThread now st tid)) tid = Own list"
    and f: "find (\<lambda>x. msg_id x = m) list = None"
    and d: "db s' = obj_put (userId_of hdr)
       (let st2 = (ensureThread now st tid)
                    \<lparr>messages := obj_put tid (list @ [msg]) (messages (ensureThread now st tid))\<rparr>
        in case threads_get (threads st2) tid of
             TOwn th \<Rightarrow> st2\<lparr>threads := own_thread_update tid
                 (th\<lparr>th_lastMessage := msg_text msg, th_updatedAt := msg_at msg\<rparr>) (threads st2)\<rparr>
           | TProto p \<Rightarrow> st2\<lparr>threads := (threads st2)\<lparr>proto_thread :=
                 Some (p\<lparr>th_lastMessage := msg_text msg, th_updatedAt := msg_at msg\<rparr>)\<rparr>\<rparr>
           | _ \<Rightarrow> st2)
       (db (fst (getUser hdr s)))"
  have d': "db s' = obj_put (userId_of hdr) (after_push (ensureThread now st tid) tid list msg)
       (db (fst (getUser hdr s)))"
    unfolding d after_push_def ..
  have tr: "tslot_truthy (threads_get (threads (ensureThread now st tid)) tid)"
    by (simp add: threads_ensureThread)
  have 1: "js_get (db s') (userId_of hdr) = Own (after_push (ensureThread now st tid) tid list msg)"
    unfolding d' by (simp add: js_get_obj_put)
  have 2: "js_get (messages (after_push (ensureThread now st tid) tid list msg)) tid
      = Own (list @ [msg])"
    by (simp add: messages_after_push js_get_obj_put)
  have 3: "tslot_truthy (threads_get (threads (after_push (ensureThread now st tid) tid list msg)) tid)"
    using tr by (rule threads_after_push)
  show ?thesis
    using that [of "after_push (ensureThread now st tid) tid list msg" list msg] 1 2 3 f m a sa mb
    by simp
qed

lemma store_messages_empty: "store_messages empty_store tid = []"
  by (simp add: store_messages_def empty_store_def js_get_def)

lemma store_messages_ensureThread:
  "store_messages (ensureThread now st k) tid = store_messages st tid"
  by (simp add: store_messages_def messages_ensureThread)

lemma store_messages_put_empty:
  "\<not> slot_truthy (js_get (messages st) k) \<Longrightarrow> messages st' = obj_put k [] (messages st) \<Longrightarrow>
   store_messages st' tid = store_messages st tid"
  by (cases "js_get (messages st) k") (auto simp: store_messages_def js_get_obj_put)

lemma store_messages_same:
  "messages st' = messages st \<Longrightarrow> store_messages st' tid = store_messages st tid"
  by (simp add: store_messages_def)

lemma store_messages_threads_update:
  "store_messages (st\<lparr>threads := ts\<rparr>) tid = store_messages st tid"
  by (simp add: store_messages_def)

lemma store_messages_after_push:
  "store_messages (after_push st1 k list msg) tid =
     (if tid = k then list @ [msg] else store_messages st1 tid)"
  by (simp add: store_messages_def messages_after_push js_get_obj_put)

lemma stored_getUser: "stored (fst (getUser hdr s)) u tid = stored s u tid"
  by (rule getUser_cases [of hdr s])
     (auto simp: stored_def js_get_obj_put store_messages_empty)

lemma stored_set_store:
  "stored (set_store hdr st' s) u tid =
     (if u = userId_of hdr then store_messages st' tid else stored s u tid)"
  by (simp add: stored_def set_store_def js_get_obj_put)

lemma stored_scheduleSave: "stored (scheduleSave s) u tid = stored s u tid"
  by (simp add: stored_def scheduleSave_def)

lemma stored_after_getUser:
  "getUser hdr s = (s1, Own st) \<Longrightarrow> store_messages st tid = stored s (userId_of hdr) tid"
  using stored_getUser [of hdr s "userId_of hdr" tid] getUser_lookup [of hdr s s1 "Own st"]
  by (simp add: stored_def)

lemma stored_same_store:
  assumes "getUser hdr s = (s1, Own st)" and "store_messages st' tid = store_messages st tid"
  shows "stored (set_store hdr st' s1) u tid = stored s u tid"
  using assms stored_after_getUser [OF assms(1), of tid] stored_getUser [of hdr s u tid]
  by (simp add: stored_set_store)

lemma stored_Own:
  "stored s u tid \<noteq> [] \<Longrightarrow>
   \<exists>st. js_get (db s) u = Own st \<and> js_get (messages st) tid = Own (stored s u tid)"
  by (auto simp: stored_def store_messages_def split: slot.splits)

lemma appendMessage_pushed:
  assumes "appendMessage P hdr k body now serverAt uuid s = (s', Message_created m stamp)"
  obtains st msg where
    "snd (getUser hdr s) = Own st" "msg_at msg = serverAt" "msg_id msg = m" "stamp = serverAt"
    "message_of_body P serverAt uuid (body_or_empty body) = Some msg"
    "find (\<lambda>x. msg_id x = m) (store_messages st k) = None"
    "db s' = obj_put (userId_of hdr)
       (after_push (ensureThread now st k) k (store_messages st k) msg) (db (fst (getUser hdr s)))"
proof (rule appendMessage_created [OF assms])
  fix st msg list
  assume g: "snd (getUser hdr s) = Own st"
    and mb: "message_of_body P serverAt uuid (body_or_empty body) = Some msg"
    and m: "msg_id msg = m" and a: "msg_at msg = stamp" and sa: "stamp = serverAt"
    and l: "js_get (messages (ensureThread now st k)) k = Own list"
    and f: "find (\<lambda>x. msg_id x = m) list = None"
    and d: "db s' = obj_put (userId_of hdr)
       (let st2 = (ensureThread now st k)
                    \<lparr>messages := obj_put k (list @ [msg]) (messages (ensureThread now st k))\<rparr>
        in case threads_get (threads st2) k of
             TOwn th \<Rightarrow> st2\<lparr>threads := own_thread_update k
                 (th\<lparr>th_lastMessage := msg_text msg, th_updatedAt := msg_at msg\<rparr>) (threads st2)\<rparr>
           | TProto p \<Rightarrow> st2\<lparr>threads := (threads st2)\<lparr>proto_thread :=
                 Some (p\<lparr>th_lastMessage := msg_text msg, th_updatedAt := msg_at msg\<rparr>)\<rparr>\<rparr>
           | _ \<Rightarrow> st2)
       (db (fst (getUser hdr s)))"
  have "store_messages (ensureThread now st k) k = list"
    using l by (simp add: store_messages_def)
  then have list: "list = store_messages st k"
    by (simp add: store_messages_ensureThread)
  have d': "db s' = obj_put (userId_of hdr)
       (after_push (ensureThread now st k) k (store_messages st k) msg) (db (fst (getUser hdr s)))"
    unfolding d after_push_def list ..
  show ?thesis
    using that [of st msg] g mb m a sa f d' list by simp
qed

lemma appendMessage_other:
  assumes g: "getUser hdr s = (s1, sl)"
    and n: "\<forall>m a. snd (appendMessage P hdr k body now serverAt uuid s) \<noteq> Message_created m a"
  shows "fst (appendMessage P hdr k body now serverAt uuid s) = s1 \<or>
    (\<exists>st. sl = Own st \<and>
       fst (appendMessage P hdr k body now serverAt uuid s) = set_store hdr (ensureThread now st k) s1)"
proof (cases sl)
  case (Own st)
  let ?st1 = "ensureThread now st k"
  show ?thesis
  proof (cases "message_of_body P serverAt uuid (body_or_empty body)")
    case None
    then show ?thesis using g Own by (simp add: appendMessage_def Let_def)
  next
    case (Some msg)
    show ?thesis
    proof (cases "js_get (messages ?st1) k")
      case (Own list)
      show ?thesis
      proof (cases "find (\<lambda>x. msg_id x = msg_id msg) list")
        case (Some e)
        then show ?thesis
          using g \<open>sl = Own st\<close> \<open>message_of_body P serverAt uuid (body_or_empty body) = Some msg\<close> Own
          by (simp add: appendMessage_def Let_def)
      next
        case None
        have tr: "tslot_truthy (threads_get (threads ?st1) k)"
          by (simp add: threads_ensureThread)
        have False
          using n g \<open>sl = Own st\<close> \<open>message_of_body P serverAt uuid (body_or_empty body) = Some msg\<close>
            Own None tr
          by (cases "threads_get (threads ?st1) k") (simp_all add: appendMessage_def Let_def)
        then show ?thesis ..
      qed
    qed (use g \<open>sl = Own st\<close> \<open>message_of_body P serverAt uuid (body_or_empty body) = Some msg\<close>
          in \<open>simp_all add: appendMessage_def Let_def\<close>)
  qed
qed (use g in \<open>simp_all add: appendMessage_def\<close>)


lemma appendMessage_found:
  assumes "js_get (db s) (userId_of h) = Own st"
    and "js_get (messages st) tid = Own list"
    and "message_of_body P serverAt uuid (body_or_empty b) = Some msg"
    and "find (\<lambda>x. msg_id x = msg_id msg) list = Some e"
  shows "appendMessage P h tid b now serverAt uuid s =
    (set_store h (ensureThread now st tid) s, Message_exists (msg_id e) (msg_at e))"
  using assms
  by (simp add: appendMessage_def getUser_known messages_ensureThread Let_def)

lemma stored_listThreads: "stored (fst (listThreads P hdr s)) u tid = stored s u tid"
proof -
  have "fst (listThreads P hdr s) = fst (getUser hdr s)"
    by (cases "getUser hdr s") (simp add: listThreads_def split: slot.splits)
  then show ?thesis by (simp add: stored_getUser)
qed

lemma stored_listMessages: "stored (fst (listMessages P hdr k q now s)) u tid = stored s u tid"
proof (cases "getUser hdr s")
  case (Pair s1 sl)
  show ?thesis
  proof (cases sl)
    case (Own st)
    then show ?thesis
      using Pair stored_same_store [of hdr s s1 st "ensureThread now st k" tid u]
      by (simp add: listMessages_state store_messages_ensureThread)
  qed (use Pair stored_getUser [of hdr s u tid] in \<open>simp_all add: listMessages_state\<close>)
qed

lemma stored_upsertThread: "stored (fst (upsertThread P hdr body now s)) u tid = stored s u tid"
proof (cases "getUser hdr s")
  case (Pair s1 sl)
  have s1: "stored s1 u tid = stored s u tid"
    using Pair stored_getUser [of hdr s u tid] by simp
  show ?thesis
  proof (cases "snd (upsertThread P hdr body now s) = Thread_created")
    case False
    then have "fst (upsertThread P hdr body now s) = s1"
      using Pair
      by (auto simp: upsertThread_def Let_def split: option.splits slot.splits if_splits)
    then show ?thesis using s1 by simp
  next
    case True
    then obtain st thread where sl: "sl = Own st"
      and st: "fst (upsertThread P hdr body now s) =
        scheduleSave (set_store hdr
          (let st1 = st\<lparr>threads := threads_set (th_id thread) thread (threads st)\<rparr>
           in if \<not> slot_truthy (js_get (messages st1) (th_id thread))
              then st1\<lparr>messages := obj_put (th_id thread) [] (messages st1)\<rparr> else st1) s1)"
      using Pair
      by (auto simp: upsertThread_def Let_def split: option.splits slot.splits if_splits)
    have "store_messages
          (let st1 = st\<lparr>threads := threads_set (th_id thread) thread (threads st)\<rparr>
           in if \<not> slot_truthy (js_get (messages st1) (th_id thread))
              then st1\<lparr>messages := obj_put (th_id thread) [] (messages st1)\<rparr> else st1) tid
        = store_messages st tid"
      by (auto simp: Let_def intro: store_messages_put_empty store_messages_same)
    then show ?thesis
      using st Pair sl stored_same_store [of hdr s s1 st _ tid u]
      by (simp add: stored_scheduleSave)
  qed
qed

lemma stored_markRead: "stored (fst (markRead hdr k now s)) u tid = stored s u tid"
proof (cases "getUser hdr s")
  case (Pair s1 sl)
  have s1: "stored s1 u tid = stored s u tid"
    using Pair stored_getUser [of hdr s u tid] by simp
  show ?thesis
  proof (cases sl)
    case (Own st)
    have same: "stored (set_store hdr st' s1) u tid = stored s u tid"
      if "store_messages st' tid = store_messages (ensureThread now st k) tid" for st'
      using that Pair Own stored_same_store [of hdr s s1 st st' tid u]
      by (simp add: store_messages_ensureThread)
    show ?thesis
      using Pair Own
      by (cases "threads_get (threads (ensureThread now st k)) k")
         (simp_all add: markRead_def Let_def stored_scheduleSave same store_messages_threads_update)
  qed (use Pair s1 in \<open>simp_all add: markRead_def\<close>)
qed

lemma stored_appendMessage:
  "stored (fst (appendMessage P hdr k body now serverAt uuid s)) u tid = stored s u tid \<or>
   (\<exists>msg. stored (fst (appendMessage P hdr k body now serverAt uuid s)) u tid =
             stored s u tid @ [msg] \<and> msg_at msg = serverAt \<and>
          find (\<lambda>x. msg_id x = msg_id msg) (stored s u tid) = None)"
proof (cases "\<exists>m a. snd (appendMessage P hdr k body now serverAt uuid s) = Message_created m a")
  case True
  then obtain s' m a where
    c: "appendMessage P hdr k body now serverAt uuid s = (s', Message_created m a)"
    by (cases "appendMessage P hdr k body now serverAt uuid s") auto
  show ?thesis
  proof (rule appendMessage_pushed [OF c])
    fix st msg
    assume g: "snd (getUser hdr s) = Own st" and a: "msg_at msg = serverAt"
      and m: "msg_id msg = m"
      and f: "find (\<lambda>x. msg_id x = m) (store_messages st k) = None"
      and d: "db s' = obj_put (userId_of hdr)
       (after_push (ensureThread now st k) k (store_messages st k) msg) (db (fst (getUser hdr s)))"
    have st: "store_messages st tid = stored s (userId_of hdr) tid" for tid
      using g stored_after_getUser [of hdr s "fst (getUser hdr s)" st tid]
      by (cases "getUser hdr s") simp
    have "stored s' u tid =
        (if u = userId_of hdr
         then (if tid = k then stored s u tid @ [msg] else stored s u tid)
         else stored s u tid)"
      using stored_getUser [of hdr s u tid] st
      by (simp add: stored_def d js_get_obj_put store_messages_after_push
          store_messages_ensureThread)
    then show ?thesis using c a m f st [of k] by auto
  qed
next
  case False
  obtain s1 sl where g: "getUser hdr s = (s1, sl)" by (cases "getUser hdr s")
  have s1: "stored s1 u tid = stored s u tid"
    using g stored_getUser [of hdr s u tid] by simp
  from appendMessage_other [OF g, of P k body now serverAt uuid] False
  have "fst (appendMessage P hdr k body now serverAt uuid s) = s1 \<or>
    (\<exists>st. sl = Own st \<and>
       fst (appendMessage P hdr k body now serverAt uuid s) = set_store hdr (ensureThread now st k) s1)"
    by simp
  then have "stored (fst (appendMessage P hdr k body now serverAt uuid s)) u tid = stored s u tid"
    using s1 g stored_same_store [of hdr s s1 _ _ tid u]
    by (auto simp: store_messages_ensureThread)
  then show ?thesis ..
qed

lemma stored_handle:
  "stored (fst (handle P r s)) u tid = stored s u tid \<or>
   (\<exists>msg. stored (fst (handle P r s)) u tid = stored s u tid @ [msg] \<and>
          stamps [r] = [msg_at msg] \<and>
          find (\<lambda>x. msg_id x = msg_id msg) (stored s u tid) = None)"
proof (cases r)
  case (AppendMessage hdr k body now serverAt uuid)
  then show ?thesis
    using stored_appendMessage [of P hdr k body now serverAt uuid s u tid] by auto
next
  case SaveTimerFires
  then show ?thesis by (simp add: stored_def)
qed (simp_all add: stored_listThreads stored_upsertThread stored_listMessages stored_markRead)



lemma kept_handle:
  assumes "find (\<lambda>x. msg_id x = m) (stored s u tid) = Some e"
  shows "find (\<lambda>x. msg_id x = m) (stored (fst (handle P r s)) u tid) = Some e \<and>
    filter (\<lambda>x. msg_id x = m) (stored (fst (handle P r s)) u tid) =
      filter (\<lambda>x. msg_id x = m) (stored s u tid)"
proof -
  from stored_handle [of P r s u tid] show ?thesis
  proof
    assume "stored (fst (handle P r s)) u tid = stored s u tid"
    then show ?thesis using assms by simp
  next
    assume "\<exists>msg. stored (fst (handle P r s)) u tid = stored s u tid @ [msg] \<and>
          stamps [r] = [msg_at msg] \<and>
          find (\<lambda>x. msg_id x = msg_id msg) (stored s u tid) = None"
    then obtain msg where p: "stored (fst (handle P r s)) u tid = stored s u tid @ [msg]"
      and n: "find (\<lambda>x. msg_id x = msg_id msg) (stored s u tid) = None" by blast
    have "msg_id msg \<noteq> m" using n assms by auto
    then show ?thesis using p assms by (simp add: find_append_found)
  qed
qed

lemma kept_run:
  "find (\<lambda>x. msg_id x = m) (stored s u tid) = Some e \<Longrightarrow>
   find (\<lambda>x. msg_id x = m) (stored (run P rs s) u tid) = Some e \<and>
   filter (\<lambda>x. msg_id x = m) (stored (run P rs s) u tid) =
     filter (\<lambda>x. msg_id x = m) (stored s u tid)"
proof (induction rs arbitrary: s)
  case Nil
  then show ?case by simp
next
  case (Cons r rs)
  from kept_handle [OF Cons.prems, of P r]
  have 1: "find (\<lambda>x. msg_id x = m) (stored (fst (handle P r s)) u tid) = Some e"
    and 2: "filter (\<lambda>x. msg_id x = m) (stored (fst (handle P r s)) u tid) =
      filter (\<lambda>x. msg_id x = m) (stored s u tid)" by simp_all
  from Cons.IH [OF 1] 2 show ?case by simp
qed

lemma distinct_ids_handle:
  "distinct (map msg_id (stored s u tid)) \<Longrightarrow>
   distinct (map msg_id (stored (fst (handle P r s)) u tid))"
  using stored_handle [of P r s u tid] by (auto simp: find_None_iff_ids)

lemma distinct_ids_run:
  "distinct (map msg_id (stored s u tid)) \<Longrightarrow>
   distinct (map msg_id (stored (run P rs s) u tid))"
  by (induction rs arbitrary: s) (simp_all add: distinct_ids_handle)

lemma addressedE:
  assumes "addressed P hdr tid m r"
  obtains h b now serverAt uuid msg where
    "r = AppendMessage h tid b now serverAt uuid" "userId_of h = userId_of hdr"
    "message_of_body P serverAt uuid (body_or_empty b) = Some msg" "msg_id msg = m"
  using assms by (cases r) (auto simp: addressed_def split: option.splits)

section \<open>Keys that are not inherited\<close>

text \<open>
  For a user key and a thread id that name no member of \<^verbatim>\<open>Object.prototype\<close>, the lookups
  in \<^verbatim>\<open>db\<close> and in \<^verbatim>\<open>store.messages\<close> find an own property or nothing: \<open>listMessages\<close>
  answers from the stored list, and \<open>appendMessage\<close> stores a message whose id is new.
\<close>

lemma date_gt_None: "date_gt x None = False"
  by (simp add: date_gt_def split: option.splits)

lemma js_get_not_Builtin: "\<not> inherited k \<Longrightarrow> js_get ps k \<noteq> Builtin"
  by (simp add: js_get_def inherited_def split: option.splits)

lemma listMessages_answer:
  assumes u: "\<not> inherited (userId_of hdr)" and k: "\<not> inherited tid"
  shows "snd (listMessages P hdr tid q now s) =
     (case after_of P q of
        None \<Rightarrow> Messages (stored s (userId_of hdr) tid)
      | Some after \<Rightarrow>
          Messages (filter (\<lambda>m. date_gt (date_parse P (msg_at m)) after)
            (stored s (userId_of hdr) tid)))"
proof -
  have ans: "snd (listMessages P hdr tid q now s) =
     (case after_of P q of
        None \<Rightarrow> Messages (store_messages st tid)
      | Some after \<Rightarrow>
          Messages (filter (\<lambda>m. date_gt (date_parse P (msg_at m)) after) (store_messages st tid)))"
    if "getUser hdr s = (s1, Own st)" for s1 st
  proof (cases "js_get (messages st) tid")
    case (Own msgs)
    then show ?thesis
      using that
      by (simp add: listMessages_def messages_ensureThread store_messages_def Let_def
          split: option.splits)
  next
    case Builtin
    then show ?thesis using k by (simp add: js_get_not_Builtin)
  next
    case Undefined
    then show ?thesis
      using that
      by (simp add: listMessages_def messages_ensureThread store_messages_def Let_def
          split: option.splits)
  qed
  show ?thesis
  proof (rule getUser_cases [of hdr s])
    fix st
    assume g: "getUser hdr s = (s, Own st)" and l: "js_get (db s) (userId_of hdr) = Own st"
    have eq: "stored s (userId_of hdr) tid = store_messages st tid"
      using l by (simp add: stored_def)
    show ?thesis unfolding eq by (rule ans [OF g])
  next
    assume "js_get (db s) (userId_of hdr) = Builtin"
    then show ?thesis using u by (simp add: js_get_not_Builtin)
  next
    assume g: "getUser hdr s =
      (\<lparr>db = obj_put (userId_of hdr) empty_store (db s), saveTimer = True\<rparr>, Own empty_store)"
      and l: "js_get (db s) (userId_of hdr) = Undefined"
    have eq: "stored s (userId_of hdr) tid = store_messages empty_store tid"
      using l by (simp add: stored_def store_messages_empty)
    show ?thesis unfolding eq by (rule ans [OF g])
  qed
qed

lemma message_of_body_at:
  "message_of_body P serverAt uuid b = Some msg \<Longrightarrow> msg_at msg = serverAt"
  by (auto simp: message_of_body_def split: if_splits Option.bind_splits)

lemma getUser_plain:
  assumes "\<not> inherited (userId_of hdr)"
  obtains s1 st where "getUser hdr s = (s1, Own st)"
    and "\<And>tid. store_messages st tid = stored s (userId_of hdr) tid"
proof (rule getUser_cases [of hdr s])
  fix st
  assume g: "getUser hdr s = (s, Own st)"
  show ?thesis using that [OF g] stored_after_getUser [OF g] by simp
next
  assume "js_get (db s) (userId_of hdr) = Builtin"
  then show ?thesis using assms by (simp add: js_get_not_Builtin)
next
  assume g: "getUser hdr s =
      (\<lparr>db = obj_put (userId_of hdr) empty_store (db s), saveTimer = True\<rparr>, Own empty_store)"
  show ?thesis using that [OF g] stored_after_getUser [OF g] by simp
qed

lemma messages_ensureThread_plain:
  "\<not> inherited tid \<Longrightarrow>
   js_get (messages (ensureThread now st tid)) tid = Own (store_messages st tid)"
  by (cases "js_get (messages st) tid")
     (simp_all add: messages_ensureThread store_messages_def js_get_not_Builtin)

lemma appendMessage_fresh:
  assumes u: "\<not> inherited (userId_of hdr)" and k: "\<not> inherited tid"
    and mb: "message_of_body P serverAt uuid (body_or_empty body) = Some msg"
    and fresh: "msg_id msg \<notin> msg_id ` set (stored s (userId_of hdr) tid)"
  shows "snd (appendMessage P hdr tid body now serverAt uuid s) =
    Message_created (msg_id msg) serverAt"
proof (rule getUser_plain [OF u, of s])
  fix s1 st
  assume g: "getUser hdr s = (s1, Own st)"
    and st: "\<And>tid. store_messages st tid = stored s (userId_of hdr) tid"
  let ?st1 = "ensureThread now st tid"
  have l: "js_get (messages ?st1) tid = Own (store_messages st tid)"
    using k by (rule messages_ensureThread_plain)
  have f: "find (\<lambda>x. msg_id x = msg_id msg) (store_messages st tid) = None"
    using fresh by (simp add: find_None_iff_ids st)
  have tr: "tslot_truthy (threads_get (threads ?st1) tid)"
    by (simp add: threads_ensureThread)
  have a: "msg_at msg = serverAt" using mb by (rule message_of_body_at)
  show ?thesis
    using g mb l f tr a
    by (cases "threads_get (threads ?st1) tid") (simp_all add: appendMessage_def Let_def)
qed

section \<open>Stored threads stay stored\<close>

text \<open>No route removes an own property of \<^verbatim>\<open>store.threads\<close>.\<close>

lemma thread_field_None: "k \<notin> set thread_fields \<Longrightarrow> thread_field p k = None"
  by (simp add: thread_fields_def thread_field_def)

lemma threads_get_plain:
  "\<not> inherited k \<Longrightarrow> k \<notin> set thread_fields \<Longrightarrow>
   threads_get ts k = (case map_of (own_threads ts) k of Some t \<Rightarrow> TOwn t | None \<Rightarrow> TUndefined)"
  by (auto simp: threads_get_def inherited_def thread_field_None proto_names_def
      split: option.splits)

lemma thread_of_getUser: "thread_of (fst (getUser hdr s)) u k = thread_of s u k"
  by (rule getUser_cases [of hdr s])
     (auto simp: thread_of_def js_get_obj_put empty_store_def)

lemma thread_of_set_store:
  "thread_of (set_store hdr st' s) u k =
     (if u = userId_of hdr then map_of (own_threads (threads st')) k else thread_of s u k)"
  by (simp add: thread_of_def set_store_def js_get_obj_put)

lemma thread_of_scheduleSave: "thread_of (scheduleSave s) u k = thread_of s u k"
  by (simp add: thread_of_def scheduleSave_def)

lemma own_kept_threads_set:
  "map_of (own_threads ts) k \<noteq> None \<Longrightarrow> map_of (own_threads (threads_set k' t ts)) k \<noteq> None"
  by (simp add: threads_set_def map_of_obj_put del: not_None_eq)

lemma own_kept_update:
  "map_of (own_threads ts) k \<noteq> None \<Longrightarrow> map_of (own_threads (own_thread_update k' t ts)) k \<noteq> None"
  by (simp add: own_thread_update_def map_of_obj_put del: not_None_eq)

lemma own_kept_ensureThread:
  "map_of (own_threads (threads st)) k \<noteq> None \<Longrightarrow>
   map_of (own_threads (threads (ensureThread now st k'))) k \<noteq> None"
  by (simp add: ensureThread_def Let_def own_kept_threads_set del: not_None_eq)

lemma own_kept_after_push:
  "map_of (own_threads (threads st)) k \<noteq> None \<Longrightarrow>
   map_of (own_threads (threads (after_push st k' list msg))) k \<noteq> None"
  by (cases "threads_get (threads st) k'")
     (simp_all add: after_push_def own_kept_update del: not_None_eq)

lemma thread_kept_store:
  assumes "getUser hdr s = (s1, Own st)"
    and "map_of (own_threads (threads st)) k \<noteq> None \<Longrightarrow> map_of (own_threads (threads st')) k \<noteq> None"
    and "thread_of s u k \<noteq> None"
  shows "thread_of (set_store hdr st' s1) u k \<noteq> None"
proof -
  have 1: "thread_of s1 u k = thread_of s u k"
    using assms(1) thread_of_getUser [of hdr s u k] by simp
  have 2: "thread_of s1 (userId_of hdr) k = map_of (own_threads (threads st)) k"
    using getUser_lookup [OF assms(1)] by (simp add: thread_of_def)
  show ?thesis
    using assms(2,3) 1 2 by (auto simp: thread_of_set_store simp del: not_None_eq)
qed

lemma thread_kept_listThreads:
  "thread_of s u k \<noteq> None \<Longrightarrow> thread_of (fst (listThreads P hdr s)) u k \<noteq> None"
proof -
  have "fst (listThreads P hdr s) = fst (getUser hdr s)"
    by (cases "getUser hdr s") (simp add: listThreads_def split: slot.splits)
  then show "thread_of s u k \<noteq> None \<Longrightarrow> thread_of (fst (listThreads P hdr s)) u k \<noteq> None"
    by (simp add: thread_of_getUser del: not_None_eq)
qed

lemma thread_kept_listMessages:
  assumes "thread_of s u k \<noteq> None"
  shows "thread_of (fst (listMessages P hdr k' q now s)) u k \<noteq> None"
proof (cases "getUser hdr s")
  case (Pair s1 sl)
  show ?thesis
  proof (cases sl)
    case (Own st)
    then show ?thesis
      using Pair assms thread_kept_store [of hdr s s1 st k "ensureThread now st k'" u]
      by (simp add: listMessages_state own_kept_ensureThread del: not_None_eq)
  qed (use Pair assms thread_of_getUser [of hdr s u k] in
        \<open>simp_all add: listMessages_state del: not_None_eq\<close>)
qed

lemma thread_kept_upsertThread:
  assumes "thread_of s u k \<noteq> None"
  shows "thread_of (fst (upsertThread P hdr body now s)) u k \<noteq> None"
proof (cases "getUser hdr s")
  case (Pair s1 sl)
  have s1: "thread_of s1 u k \<noteq> None"
    using Pair assms thread_of_getUser [of hdr s u k] by simp
  show ?thesis
  proof (cases "snd (upsertThread P hdr body now s) = Thread_created")
    case False
    then have "fst (upsertThread P hdr body now s) = s1"
      using Pair
      by (auto simp: upsertThread_def Let_def split: option.splits slot.splits if_splits)
    then show ?thesis using s1 by simp
  next
    case True
    then obtain st thread where sl: "sl = Own st"
      and st: "fst (upsertThread P hdr body now s) =
        scheduleSave (set_store hdr
          (let st1 = st\<lparr>threads := threads_set (th_id thread) thread (threads st)\<rparr>
           in if \<not> slot_truthy (js_get (messages st1) (th_id thread))
              then st1\<lparr>messages := obj_put (th_id thread) [] (messages st1)\<rparr> else st1) s1)"
      using Pair
      by (auto simp: upsertThread_def Let_def split: option.splits slot.splits if_splits)
    have "map_of (own_threads (threads st)) k \<noteq> None \<Longrightarrow>
        map_of (own_threads (threads
          (let st1 = st\<lparr>threads := threads_set (th_id thread) thread (threads st)\<rparr>
           in if \<not> slot_truthy (js_get (messages st1) (th_id thread))
              then st1\<lparr>messages := obj_put (th_id thread) [] (messages st1)\<rparr> else st1))) k \<noteq> None"
      by (simp add: Let_def own_kept_threads_set del: not_None_eq)
    then show ?thesis
      using st Pair sl assms thread_kept_store [of hdr s s1 st k _ u]
      by (simp add: thread_of_scheduleSave del: not_None_eq)
  qed
qed

lemma thread_kept_markRead:
  assumes "thread_of s u k \<noteq> None"
  shows "thread_of (fst (markRead hdr k' now s)) u k \<noteq> None"
proof (cases "getUser hdr s")
  case (Pair s1 sl)
  have s1: "thread_of s1 u k \<noteq> None"
    using Pair assms thread_of_getUser [of hdr s u k] by simp
  show ?thesis
  proof (cases sl)
    case (Own st)
    have kept: "thread_of (set_store hdr st' s1) u k \<noteq> None"
      if "map_of (own_threads (threads (ensureThread now st k'))) k \<noteq> None \<Longrightarrow>
          map_of (own_threads (threads st')) k \<noteq> None" for st'
      using that Pair Own assms thread_kept_store [of hdr s s1 st k st' u]
      by (simp add: own_kept_ensureThread del: not_None_eq)
    show ?thesis
      using Pair Own
      by (cases "threads_get (threads (ensureThread now st k')) k'")
         (simp_all add: markRead_def Let_def thread_of_scheduleSave kept own_kept_update
            del: not_None_eq)
  qed (use Pair s1 in \<open>simp_all add: markRead_def del: not_None_eq\<close>)
qed

lemma thread_kept_appendMessage:
  assumes "thread_of s u k \<noteq> None"
  shows "thread_of (fst (appendMessage P hdr k' body now serverAt uuid s)) u k \<noteq> None"
proof (cases "\<exists>m a. snd (appendMessage P hdr k' body now serverAt uuid s) = Message_created m a")
  case True
  then obtain s' m a where
    c: "appendMessage P hdr k' body now serverAt uuid s = (s', Message_created m a)"
    by (cases "appendMessage P hdr k' body now serverAt uuid s") auto
  show ?thesis
  proof (rule appendMessage_pushed [OF c])
    fix st msg
    assume g: "snd (getUser hdr s) = Own st"
      and d: "db s' = obj_put (userId_of hdr)
       (after_push (ensureThread now st k') k' (store_messages st k') msg) (db (fst (getUser hdr s)))"
    let ?st' = "after_push (ensureThread now st k') k' (store_messages st k') msg"
    have s': "thread_of s' u k = thread_of (set_store hdr ?st' (fst (getUser hdr s))) u k"
      by (simp add: thread_of_def d set_store_def)
    have "thread_of (set_store hdr ?st' (fst (getUser hdr s))) u k \<noteq> None"
      using g assms thread_kept_store [of hdr s "fst (getUser hdr s)" st k ?st' u]
      by (cases "getUser hdr s")
         (simp add: own_kept_ensureThread own_kept_after_push del: not_None_eq)
    then show ?thesis using c s' by simp
  qed
next
  case False
  obtain s1 sl where g: "getUser hdr s = (s1, sl)" by (cases "getUser hdr s")
  have s1: "thread_of s1 u k \<noteq> None"
    using g assms thread_of_getUser [of hdr s u k] by simp
  from appendMessage_other [OF g, of P k' body now serverAt uuid] False
  have "fst (appendMessage P hdr k' body now serverAt uuid s) = s1 \<or>
    (\<exists>st. sl = Own st \<and>
       fst (appendMessage P hdr k' body now serverAt uuid s) = set_store hdr (ensureThread now st k') s1)"
    by simp
  then show ?thesis
  proof
    assume "fst (appendMessage P hdr k' body now serverAt uuid s) = s1"
    then show ?thesis using s1 by simp
  next
    assume "\<exists>st. sl = Own st \<and>
       fst (appendMessage P hdr k' body now serverAt uuid s) = set_store hdr (ensureThread now st k') s1"
    then obtain st where sl: "sl = Own st"
      and f: "fst (appendMessage P hdr k' body now serverAt uuid s) =
        set_store hdr (ensureThread now st k') s1" by blast
    have "thread_of (set_store hdr (ensureThread now st k') s1) u k \<noteq> None"
      using g [unfolded sl] _ assms by (rule thread_kept_store) (rule own_kept_ensureThread)
    then show ?thesis using f by simp
  qed
qed

lemma thread_kept_handle:
  "thread_of s u k \<noteq> None \<Longrightarrow> thread_of (fst (handle P r s)) u k \<noteq> None"
proof (cases r)
  case SaveTimerFires
  then show "thread_of s u k \<noteq> None \<Longrightarrow> ?thesis"
    by (simp add: thread_of_def del: not_None_eq)
qed (simp_all add: thread_kept_listThreads thread_kept_upsertThread thread_kept_listMessages
      thread_kept_markRead thread_kept_appendMessage del: not_None_eq)

lemma thread_kept_run:
  "thread_of s u k \<noteq> None \<Longrightarrow> thread_of (run P rs s) u k \<noteq> None"
  by (induction rs arbitrary: s) (simp_all add: thread_kept_handle del: not_None_eq)

section \<open>The claims\<close>

lemmas eval_defs =
  getUser_def userId_of_def js_get_def initial_def proto_names_def obj_put_def
  is_array_index_def digit_def scheduleSave_def empty_store_def set_store_def
  ensureThread_def threads_get_def threads_set_def own_thread_update_def new_thread_def
  field_def body_or_empty_def truthy_opt_def nullish_or_def Let_def

subsection \<open>C1: appending a message twice\<close>

text \<open>
  C1, for a user key and a thread id that are not inherited. Let the message built from the
  body of a call carry an id that the list of the thread does not hold. Then the call is
  answered \<open>Message_created\<close> with that id and the server time of the call; the message,
  stamped with that time, is added at the end of the list; and a save is scheduled. In the
  state after any further requests \<open>qs\<close>, of any kind, the list holds exactly one message
  with that id, the one the first call stored. A call addressed to the same tenant, thread
  and message id, whatever its text and its time, is then answered \<open>Message_exists\<close> with the
  id and the time of the first call, which is another answer than the first; and it leaves
  the state as it is, dataset and save timer alike, when the thread id is no field name of
  a thread. A sequence \<open>rs\<close> of such calls right after the first one is answered so call by
  call and returns the state it started from.
\<close>

theorem C1_idempotent_append:
  assumes u: "\<not> inherited (userId_of hdr)" and k: "\<not> inherited tid"
    and mb: "message_of_body P serverAt uuid (body_or_empty body) = Some msg"
    and fresh: "msg_id msg \<notin> msg_id ` set (stored s (userId_of hdr) tid)"
    and r: "addressed P hdr tid (msg_id msg) r"
    and rs: "list_all (addressed P hdr tid (msg_id msg)) rs"
  shows "let s1 = fst (appendMessage P hdr tid body now serverAt uuid s) in
    snd (appendMessage P hdr tid body now serverAt uuid s) = Message_created (msg_id msg) serverAt \<and>
    stored s1 (userId_of hdr) tid = stored s (userId_of hdr) tid @ [msg] \<and>
    msg_at msg = serverAt \<and> saveTimer s1 \<and>
    filter (\<lambda>x. msg_id x = msg_id msg) (stored (run P qs s1) (userId_of hdr) tid) = [msg] \<and>
    snd (handle P r (run P qs s1)) = Message_exists (msg_id msg) serverAt \<and>
    (tid \<notin> set thread_fields \<longrightarrow> fst (handle P r (run P qs s1)) = run P qs s1) \<and>
    list_all (\<lambda>r. handle P r s1 = (s1, Message_exists (msg_id msg) serverAt)) rs \<and>
    run P rs s1 = s1 \<and>
    Message_exists (msg_id msg) serverAt \<noteq> Message_created (msg_id msg) serverAt"
proof -
  let ?u = "userId_of hdr"
  let ?m = "msg_id msg"
  define s1 where "s1 = fst (appendMessage P hdr tid body now serverAt uuid s)"
  have created: "snd (appendMessage P hdr tid body now serverAt uuid s) =
      Message_created ?m serverAt"
    using u k mb fresh by (rule appendMessage_fresh)
  then have c: "appendMessage P hdr tid body now serverAt uuid s =
      (s1, Message_created ?m serverAt)"
    by (simp add: s1_def prod_eq_iff)
  have a: "msg_at msg = serverAt" using mb by (rule message_of_body_at)
  have timer: "saveTimer s1"
    by (rule appendMessage_created [OF c])
  have pushed: "stored s1 ?u tid = stored s ?u tid @ [msg] \<and>
      (tid \<notin> set thread_fields \<longrightarrow> thread_of s1 ?u tid \<noteq> None)"
  proof (rule appendMessage_pushed [OF c])
    fix st msg'
    assume g: "snd (getUser hdr s) = Own st"
      and mb': "message_of_body P serverAt uuid (body_or_empty body) = Some msg'"
      and d: "db s1 = obj_put ?u
         (after_push (ensureThread now st tid) tid (store_messages st tid) msg')
         (db (fst (getUser hdr s)))"
    let ?st1 = "ensureThread now st tid"
    have msg': "msg' = msg" using mb mb' by simp
    have st: "store_messages st tid = stored s ?u tid"
      using g stored_after_getUser [of hdr s "fst (getUser hdr s)" st tid]
      by (cases "getUser hdr s") simp
    have 1: "stored s1 ?u tid = stored s ?u tid @ [msg]"
      by (simp add: stored_def d js_get_obj_put store_messages_after_push st msg')
    have 2: "thread_of s1 ?u tid \<noteq> None" if kf: "tid \<notin> set thread_fields"
    proof -
      have "threads_get (threads st) tid =
          (case map_of (own_threads (threads st)) tid of Some t \<Rightarrow> TOwn t | None \<Rightarrow> TUndefined)"
        using k kf by (rule threads_get_plain)
      then obtain th where th: "threads_get (threads ?st1) tid = TOwn th"
        by (cases "map_of (own_threads (threads st)) tid") (simp_all add: threads_ensureThread)
      have "map_of (own_threads (threads (after_push ?st1 tid (store_messages st tid) msg'))) tid
          \<noteq> None"
        using th by (simp add: after_push_def own_thread_update_def map_of_obj_put)
      then show ?thesis
        by (simp add: thread_of_def d js_get_obj_put del: not_None_eq)
    qed
    show ?thesis using 1 2 by simp
  qed
  then have st1: "stored s1 ?u tid = stored s ?u tid @ [msg]"
    and th1: "tid \<notin> set thread_fields \<Longrightarrow> thread_of s1 ?u tid \<noteq> None" by simp_all
  have tr1: "tslot_truthy (threads_get (threads st) tid)" if "js_get (db s1) ?u = Own st" for st
    by (rule appendMessage_created_state [OF c]) (use that in simp)
  have f: "find (\<lambda>x. msg_id x = ?m) (stored s ?u tid) = None"
    using fresh by (simp add: find_None_iff_ids)
  have f1: "find (\<lambda>x. msg_id x = ?m) (stored s1 ?u tid) = Some msg"
    using f by (simp add: st1 find_snoc_new)
  have c1: "filter (\<lambda>x. msg_id x = ?m) (stored s1 ?u tid) = [msg]"
    using f by (simp add: st1 filter_find_None)
  have repeat: "snd (handle P r' s2) = Message_exists ?m serverAt \<and>
      ((\<forall>st. js_get (db s2) ?u = Own st \<longrightarrow> tslot_truthy (threads_get (threads st) tid)) \<longrightarrow>
       fst (handle P r' s2) = s2)"
    if adr: "addressed P hdr tid ?m r'"
      and f2: "find (\<lambda>x. msg_id x = ?m) (stored s2 ?u tid) = Some msg"
    for r' s2
  proof -
    obtain h' b' n' a' u' msg' where r': "r' = AppendMessage h' tid b' n' a' u'"
      and h': "userId_of h' = ?u"
      and b': "message_of_body P a' u' (body_or_empty b') = Some msg'" and m': "msg_id msg' = ?m"
      using adr by (rule addressedE)
    have "stored s2 ?u tid \<noteq> []" using f2 by auto
    then obtain st2 where st2: "js_get (db s2) ?u = Own st2"
      and l2: "js_get (messages st2) tid = Own (stored s2 ?u tid)"
      using stored_Own by blast
    have db2: "js_get (db s2) (userId_of h') = Own st2"
      using st2 h' by simp
    have fm: "find (\<lambda>x. msg_id x = msg_id msg') (stored s2 ?u tid) = Some msg"
      using f2 unfolding m' .
    have ap: "appendMessage P h' tid b' n' a' u' s2 =
        (set_store h' (ensureThread n' st2 tid) s2, Message_exists (msg_id msg) (msg_at msg))"
      using db2 l2 b' fm by (rule appendMessage_found)
    have "ensureThread n' st2 tid = st2" if "tslot_truthy (threads_get (threads st2) tid)"
      using that l2 by (simp add: ensureThread_known)
    then show ?thesis
      using ap r' db2 st2 a by (auto simp: set_store_same)
  qed
  have f2: "find (\<lambda>x. msg_id x = ?m) (stored (run P qs s1) ?u tid) = Some msg"
    and c2: "filter (\<lambda>x. msg_id x = ?m) (stored (run P qs s1) ?u tid) = [msg]"
    using kept_run [OF f1, of P qs] c1 by simp_all
  have r2: "snd (handle P r (run P qs s1)) = Message_exists ?m serverAt"
    using repeat [OF r f2] by simp
  have same2: "fst (handle P r (run P qs s1)) = run P qs s1" if kf: "tid \<notin> set thread_fields"
  proof -
    have "thread_of (run P qs s1) ?u tid \<noteq> None"
      using th1 [OF kf] by (rule thread_kept_run)
    then have "\<forall>st. js_get (db (run P qs s1)) ?u = Own st \<longrightarrow>
        tslot_truthy (threads_get (threads st) tid)"
      by (auto simp: thread_of_def threads_get_def)
    then show ?thesis using repeat [OF r f2] by simp
  qed
  have all: "list_all (\<lambda>r. handle P r s1 = (s1, Message_exists ?m serverAt)) rs"
    using rs repeat [OF _ f1] tr1 by (simp add: list_all_iff prod_eq_iff)
  have "run P rs s1 = s1"
    using all by (induction rs) simp_all
  then show ?thesis
    unfolding Let_def s1_def [symmetric]
    using created st1 a timer c2 r2 same2 all by simp
qed

text \<open>
  A first message on the empty dataset; its repetition after a run of other requests, and
  two repetitions in a row.
\<close>

theorem C1_idempotent_append_witness:
  "appendMessage sample_platform None ''t1''
      (Some (JObj [(''id'', JStr ''m1''), (''text'', JStr ''hi'')]))
      ''2026-01-01T00:00:00.000Z'' ''2026-01-01T00:00:00.000Z'' ''u-1'' initial =
     (sample_created, Message_created ''m1'' ''2026-01-01T00:00:00.000Z'') \<and>
   stored sample_created ''demo'' ''t1'' = [sample_first] \<and>
   saveTimer sample_created \<and>
   filter (\<lambda>x. msg_id x = ''m1'')
     (stored (run sample_platform sample_between sample_created) ''demo'' ''t1'') = [sample_first] \<and>
   handle sample_platform (hd sample_retries)
       (run sample_platform sample_between sample_created) =
     (run sample_platform sample_between sample_created,
      Message_exists ''m1'' ''2026-01-01T00:00:00.000Z'') \<and>
   list_all (\<lambda>r. handle sample_platform r sample_created =
       (sample_created, Message_exists ''m1'' ''2026-01-01T00:00:00.000Z'')) sample_retries \<and>
   run sample_platform sample_retries sample_created = sample_created"
proof -
  have u: "userId_of None = ''demo''" and m: "msg_id sample_first = ''m1''"
    by (simp_all add: userId_of_def sample_first_def)
  have h1: "\<not> inherited (userId_of None)" by code_simp
  have h2: "\<not> inherited ''t1''" by code_simp
  have h3: "''t1'' \<notin> set thread_fields" by code_simp
  have h4: "message_of_body sample_platform ''2026-01-01T00:00:00.000Z'' ''u-1''
      (body_or_empty (Some (JObj [(''id'', JStr ''m1''), (''text'', JStr ''hi'')]))) =
      Some sample_first"
    by code_simp
  have h5: "msg_id sample_first \<notin> msg_id ` set (stored initial (userId_of None) ''t1'')"
    by (simp add: stored_def initial_def js_get_def)
  have h6: "addressed sample_platform None ''t1'' (msg_id sample_first) (hd sample_retries)"
    unfolding m by code_simp
  have h7: "list_all (addressed sample_platform None ''t1'' (msg_id sample_first)) sample_retries"
    unfolding m by code_simp
  have e: "stored initial ''demo'' ''t1'' = []"
    by (simp add: stored_def initial_def js_get_def proto_names_def)
  have c: "fst (appendMessage sample_platform None ''t1''
      (Some (JObj [(''id'', JStr ''m1''), (''text'', JStr ''hi'')]))
      ''2026-01-01T00:00:00.000Z'' ''2026-01-01T00:00:00.000Z'' ''u-1'' initial) = sample_created"
    by (simp add: sample_created_def)
  show ?thesis
    using C1_idempotent_append [OF h1 h2 h4 h5 h6 h7,
        where now = "''2026-01-01T00:00:00.000Z''" and qs = sample_between] h3
    unfolding Let_def c u m e
    by (simp add: prod_eq_iff c)
qed

text \<open>
  C1 does not hold for every thread id. Posted to the thread id \<^verbatim>\<open>constructor\<close>, a message
  finds the inherited function where its list should be: the first call throws, the second
  call throws, and no message is stored. Posted to the thread id \<^verbatim>\<open>name\<close> while the
  prototype of \<^verbatim>\<open>store.threads\<close> is a thread with a name, the message is stored and no
  thread is; once that name is empty, a repetition of the call is answered
  \<open>Message_exists\<close> and creates the thread \<^verbatim>\<open>name\<close> without scheduling a save.
\<close>

theorem C1_failing_input:
  "snd (handle sample_platform (hd sample_inherited) initial) = TypeError \<and>
   snd (handle sample_platform (sample_inherited ! 1)
         (fst (handle sample_platform (hd sample_inherited) initial))) = TypeError \<and>
   stored (run sample_platform sample_inherited initial) ''demo'' ''constructor'' = [] \<and>
   snd (handle sample_platform (sample_shadowed ! 1)
         (run sample_platform (take 1 sample_shadowed) initial)) =
     Message_created ''m1'' ''2026-01-01T00:00:00.000Z'' \<and>
   snd (handle sample_platform
         (AppendMessage None ''name'' (Some (JObj [(''id'', JStr ''m1''), (''text'', JStr ''hi'')]))
            ''2026-01-02T00:00:00.000Z'' ''2026-01-02T00:00:00.000Z'' ''u-2'')
         (run sample_platform sample_shadowed initial)) =
     Message_exists ''m1'' ''2026-01-01T00:00:00.000Z'' \<and>
   thread_of (run sample_platform sample_shadowed initial) ''demo'' ''name'' = None \<and>
   thread_of (fst (handle sample_platform
         (AppendMessage None ''name'' (Some (JObj [(''id'', JStr ''m1''), (''text'', JStr ''hi'')]))
            ''2026-01-02T00:00:00.000Z'' ''2026-01-02T00:00:00.000Z'' ''u-2'')
         (run sample_platform sample_shadowed initial))) ''demo'' ''name'' =
     Some (new_thread ''name'' ''2026-01-02T00:00:00.000Z'') \<and>
   \<not> saveTimer (run sample_platform sample_shadowed initial) \<and>
   \<not> saveTimer (fst (handle sample_platform
         (AppendMessage None ''name'' (Some (JObj [(''id'', JStr ''m1''), (''text'', JStr ''hi'')]))
            ''2026-01-02T00:00:00.000Z'' ''2026-01-02T00:00:00.000Z'' ''u-2'')
         (run sample_platform sample_shadowed initial)))"
  by code_simp

subsection \<open>C2: what listing the messages does to the dataset\<close>

text \<open>
  C2, as amended. \<open>listMessages\<close> changes the dataset only by creating the tenant of a new
  user key and by what \<open>ensureThread\<close> adds for the addressed thread id: the default thread
  where the lookup in \<^verbatim>\<open>store.threads\<close> is falsy, the empty list where the lookup in
  \<^verbatim>\<open>store.messages\<close> is. Other tenants and other thread ids are left as they were. The
  save timer is armed exactly when the tenant was created; vivifying a thread of an
  existing tenant schedules no save. When tenant, thread and list exist, the state is
  unchanged.
\<close>

theorem C2_listMessages_effect:
  "saveTimer (fst (listMessages P hdr tid q now s)) =
     (saveTimer s \<or> \<not> slot_truthy (js_get (db s) (userId_of hdr))) \<and>
   (\<forall>st. js_get (db s) (userId_of hdr) = Own st \<and>
         tslot_truthy (threads_get (threads st) tid) \<and> slot_truthy (js_get (messages st) tid) \<longrightarrow>
         fst (listMessages P hdr tid q now s) = s) \<and>
   (\<forall>st. js_get (db s) (userId_of hdr) = Own st \<longrightarrow>
         fst (listMessages P hdr tid q now s) =
           s\<lparr>db := obj_put (userId_of hdr) (ensureThread now st tid) (db s)\<rparr>) \<and>
   (js_get (db s) (userId_of hdr) = Undefined \<longrightarrow>
         js_get (db (fst (listMessages P hdr tid q now s))) (userId_of hdr) =
           Own (ensureThread now empty_store tid)) \<and>
   (\<forall>u. u \<noteq> userId_of hdr \<longrightarrow>
         js_get (db (fst (listMessages P hdr tid q now s))) u = js_get (db s) u) \<and>
   (\<forall>st k. threads_get (threads (ensureThread now st tid)) k =
         (if k = tid \<and> \<not> tslot_truthy (threads_get (threads st) tid)
          then TOwn (new_thread tid now) else threads_get (threads st) k) \<and>
       js_get (messages (ensureThread now st tid)) k =
         (if k = tid \<and> js_get (messages st) tid = Undefined
          then Own [] else js_get (messages st) k))"
proof (rule getUser_cases [of hdr s])
  fix st
  assume g: "getUser hdr s = (s, Own st)" and l: "js_get (db s) (userId_of hdr) = Own st"
  have "fst (listMessages P hdr tid q now s) = set_store hdr (ensureThread now st tid) s"
    using g by (simp add: listMessages_state)
  then show ?thesis
    using l by (auto simp: set_store_def js_get_obj_put ensureThread_known obj_put_same
        threads_ensureThread messages_ensureThread)
next
  assume g: "getUser hdr s = (s, Builtin)" and l: "js_get (db s) (userId_of hdr) = Builtin"
  have "fst (listMessages P hdr tid q now s) = s"
    using g by (simp add: listMessages_state)
  then show ?thesis
    using l by (simp add: threads_ensureThread messages_ensureThread)
next
  assume g: "getUser hdr s =
      (\<lparr>db = obj_put (userId_of hdr) empty_store (db s), saveTimer = True\<rparr>, Own empty_store)"
    and l: "js_get (db s) (userId_of hdr) = Undefined"
  have "fst (listMessages P hdr tid q now s) =
      set_store hdr (ensureThread now empty_store tid)
        \<lparr>db = obj_put (userId_of hdr) empty_store (db s), saveTimer = True\<rparr>"
    using g by (simp add: listMessages_state)
  then show ?thesis
    using l by (simp add: set_store_def js_get_obj_put threads_ensureThread messages_ensureThread)
qed

text \<open>
  A read of an existing thread of an existing tenant, with no save pending, and the first
  read of a new user.
\<close>

theorem C2_listMessages_effect_witness:
  "fst (listMessages sample_platform None ''t1'' None ''2026-01-02T00:00:00.000Z''
      \<lparr>db = [(''demo'', ensureThread ''2026-01-01T00:00:00.000Z'' empty_store ''t1'')],
        saveTimer = False\<rparr>) =
     \<lparr>db = [(''demo'', ensureThread ''2026-01-01T00:00:00.000Z'' empty_store ''t1'')],
       saveTimer = False\<rparr> \<and>
   saveTimer (fst (listMessages sample_platform None ''t1'' None ''2026-01-02T00:00:00.000Z''
      initial))"
  using C2_listMessages_effect [of sample_platform None "''t1''" None
      "''2026-01-02T00:00:00.000Z''"
      "\<lparr>db = [(''demo'', ensureThread ''2026-01-01T00:00:00.000Z'' empty_store ''t1'')],
         saveTimer = False\<rparr>"]
    C2_listMessages_effect [of sample_platform None "''t1''" None
      "''2026-01-02T00:00:00.000Z''" initial]
  by (simp add: eval_defs)

text \<open>
  The claim as stated fails for an existing tenant and an unknown thread: the thread and
  its empty list are created, and no save is scheduled.
\<close>

theorem C2_counterexample:
  "fst (listMessages sample_platform None ''t1'' None ''2026-01-01T00:00:00.000Z''
      \<lparr>db = [(''demo'', empty_store)], saveTimer = False\<rparr>) =
     \<lparr>db = [(''demo'',
        \<lparr>threads = \<lparr>own_threads = [(''t1'', new_thread ''t1'' ''2026-01-01T00:00:00.000Z'')],
                    proto_thread = None\<rparr>,
         messages = [(''t1'', [])]\<rparr>)],
       saveTimer = False\<rparr> \<and>
   run sample_platform [ListThreads None, SaveTimerFires] initial =
     \<lparr>db = [(''demo'', empty_store)], saveTimer = False\<rparr>"
  by (simp add: listMessages_def listThreads_def js_sort_def after_of_def eval_defs)

subsection \<open>C3: the time cursor of listMessages\<close>

text \<open>
  C3, for a user key and a thread id that are not inherited. In every state, the messages
  of the thread are the list stored for it, which is empty for a thread that does not
  exist yet. Without \<^verbatim>\<open>after\<close>, \<open>listMessages\<close> returns that list. With an \<^verbatim>\<open>after\<close> that
  is the time \<open>T\<close>, it returns the messages of the list that are later than \<open>T\<close>, in their
  stored order: none of them when no message is later, all of them when every message is.
\<close>

theorem C3_listMessages_after:
  assumes "\<not> inherited (userId_of hdr)" and "\<not> inherited tid"
  shows "snd (listMessages P hdr tid None now s) = Messages (stored s (userId_of hdr) tid) \<and>
    (a \<noteq> [] \<and> date_parse P a = Some T \<longrightarrow>
       snd (listMessages P hdr tid (Some a) now s) =
         Messages (filter (later_than P T) (stored s (userId_of hdr) tid)) \<and>
       ((\<forall>m \<in> set (stored s (userId_of hdr) tid). \<not> later_than P T m) \<longrightarrow>
          snd (listMessages P hdr tid (Some a) now s) = Messages []) \<and>
       ((\<forall>m \<in> set (stored s (userId_of hdr) tid). later_than P T m) \<longrightarrow>
          snd (listMessages P hdr tid (Some a) now s) = Messages (stored s (userId_of hdr) tid)))"
proof -
  have "date_gt (date_parse P (msg_at m)) (Some T) = later_than P T m" for m
    by (simp add: date_gt_def later_than_def split: option.splits)
  then show ?thesis
    using assms by (auto simp: listMessages_answer after_of_def filter_empty_conv)
qed

text \<open>
  On the sample thread: the full list, the one message after the first second of
  2026-01-01, and no message after the time of the last one; and no message of a thread
  that does not exist yet.
\<close>

theorem C3_listMessages_after_witness:
  "snd (listMessages sample_platform None ''t1'' None ''2026-01-02T00:00:00.000Z'' sample_state)
     = Messages sample_messages \<and>
   snd (listMessages sample_platform None ''t1'' (Some ''2026-01-01T00:00:01.000Z'')
     ''2026-01-02T00:00:00.000Z'' sample_state) = Messages [sample_messages ! 1] \<and>
   snd (listMessages sample_platform None ''t1'' (Some ''2026-01-02T00:00:00.000Z'')
     ''2026-01-02T00:00:00.000Z'' sample_state) = Messages [] \<and>
   snd (listMessages sample_platform None ''t9'' (Some ''2026-01-01T00:00:01.000Z'')
     ''2026-01-02T00:00:00.000Z'' sample_state) = Messages []"
proof -
  have h1: "\<not> inherited (userId_of None)" by code_simp
  have h2: "\<not> inherited ''t1''" and h3: "\<not> inherited ''t9''" by code_simp+
  have s1: "stored sample_state (userId_of None) ''t1'' = sample_messages"
    and s9: "stored sample_state (userId_of None) ''t9'' = []"
    by (simp_all add: stored_def store_messages_def sample_state_def userId_of_def js_get_def
        proto_names_def)
  show ?thesis
    using C3_listMessages_after [OF h1 h2, of sample_platform "''2026-01-02T00:00:00.000Z''"
        sample_state "''2026-01-01T00:00:01.000Z''" 1767225601000]
      C3_listMessages_after [OF h1 h2, of sample_platform "''2026-01-02T00:00:00.000Z''"
        sample_state "''2026-01-02T00:00:00.000Z''" 1767312000000]
      C3_listMessages_after [OF h1 h3, of sample_platform "''2026-01-02T00:00:00.000Z''"
        sample_state "''2026-01-01T00:00:01.000Z''" 1767225601000]
    unfolding s1 s9
    by (simp add: sample_messages_def sample_platform_def later_than_def)
qed

text \<open>
  C3 does not hold for every thread. For the thread \<^verbatim>\<open>constructor\<close>, created by
  \<open>upsertThread\<close>, the lookup in \<^verbatim>\<open>store.messages\<close> finds the inherited function: with a
  time cursor the call of \<^verbatim>\<open>msgs.filter\<close> throws, and without one the answer is that
  function and no list.
\<close>

theorem C3_failing_input:
  "snd (listMessages sample_platform None ''constructor'' (Some ''2026-01-01T00:00:00.000Z'')
      ''2026-01-02T00:00:00.000Z''
      (run sample_platform
         [UpsertThread None (Some (JObj [(''id'', JStr ''constructor'')]))
            ''2026-01-01T00:00:00.000Z''] initial)) = TypeError \<and>
   snd (listMessages sample_platform None ''constructor'' None ''2026-01-02T00:00:00.000Z''
      (run sample_platform
         [UpsertThread None (Some (JObj [(''id'', JStr ''constructor'')]))
            ''2026-01-01T00:00:00.000Z''] initial)) = Not_a_list"
  by code_simp

subsection \<open>C4: what listing the threads does to the dataset\<close>

text \<open>
  C4, as amended. \<open>listThreads\<close> always answers with a list of threads and never throws. It
  creates no thread and no message, and leaves every other tenant as it was. When the
  tenant of the user key exists (or the key names a member of \<^verbatim>\<open>Object.prototype\<close>), the
  state is unchanged and no save is scheduled. When the user key is new, \<open>getUser\<close> adds
  an empty tenant for it and schedules a save.
\<close>

theorem C4_listThreads_effect:
  "(\<exists>ts. snd (listThreads P hdr s) = Threads ts) \<and>
   (slot_truthy (js_get (db s) (userId_of hdr)) \<longrightarrow> fst (listThreads P hdr s) = s) \<and>
   (\<not> slot_truthy (js_get (db s) (userId_of hdr)) \<longrightarrow>
      fst (listThreads P hdr s) =
        \<lparr>db = obj_put (userId_of hdr) empty_store (db s), saveTimer = True\<rparr>) \<and>
   (\<forall>u. u \<noteq> userId_of hdr \<longrightarrow> js_get (db (fst (listThreads P hdr s))) u = js_get (db s) u)"
  by (rule getUser_cases [of hdr s]) (simp_all add: listThreads_def js_get_obj_put)

text \<open>
  The two cases at concrete inputs: a first call for the default user on the empty
  dataset, and a call for a user whose tenant exists.
\<close>

theorem C4_listThreads_effect_witness:
  "snd (listThreads sample_platform None initial) = Threads [] \<and>
   fst (listThreads sample_platform None initial) =
     \<lparr>db = [(''demo'', empty_store)], saveTimer = True\<rparr> \<and>
   listThreads sample_platform None \<lparr>db = [(''demo'', empty_store)], saveTimer = False\<rparr> =
     (\<lparr>db = [(''demo'', empty_store)], saveTimer = False\<rparr>, Threads [])"
  using C4_listThreads_effect [of sample_platform None initial]
    C4_listThreads_effect [of sample_platform None
      "\<lparr>db = [(''demo'', empty_store)], saveTimer = False\<rparr>"]
  by (simp add: listThreads_def js_sort_def eval_defs)

text \<open>
  The claim as stated fails on the empty dataset: the first \<open>listThreads\<close> of a user creates
  the tenant and arms the save timer.
\<close>

theorem C4_counterexample:
  "fst (listThreads sample_platform None initial) \<noteq> initial \<and>
   db (fst (listThreads sample_platform None initial)) = [(''demo'', empty_store)] \<and>
   saveTimer (fst (listThreads sample_platform None initial)) \<and> \<not> saveTimer initial"
  by (simp add: listThreads_def js_sort_def eval_defs)

subsection \<open>C5: validation of a thread descriptor\<close>

text \<open>
  C5, as amended. \<open>upsertThread\<close> answers \<open>Bad_request\<close> exactly when the descriptor has
  no \<^verbatim>\<open>id\<close> or a falsy one (the empty string, \<^verbatim>\<open>null\<close>, \<^verbatim>\<open>false\<close>, \<^verbatim>\<open>0\<close>). Such a call
  creates or changes no thread and no message list: it leaves the state that \<open>getUser\<close>
  leaves, which is the state before the call when the tenant exists, and the state with
  one more, empty, tenant and a scheduled save when the user key is new.
\<close>

theorem C5_upsert_validation:
  "(snd (upsertThread P hdr body now s) = Bad_request) =
     (\<not> truthy_opt (field (body_or_empty body) ''id'')) \<and>
   (\<not> truthy_opt (field (body_or_empty body) ''id'') \<longrightarrow>
      fst (upsertThread P hdr body now s) = fst (getUser hdr s) \<and>
      (slot_truthy (js_get (db s) (userId_of hdr)) \<longrightarrow> fst (upsertThread P hdr body now s) = s) \<and>
      (\<not> slot_truthy (js_get (db s) (userId_of hdr)) \<longrightarrow>
         fst (upsertThread P hdr body now s) =
           \<lparr>db = obj_put (userId_of hdr) empty_store (db s), saveTimer = True\<rparr>))"
  by (rule getUser_cases [of hdr s])
     (auto simp: upsertThread_def truthy_opt_def Let_def split: option.splits slot.splits)

text \<open>
  A descriptor without \<^verbatim>\<open>id\<close> for an existing tenant, and one with an empty \<^verbatim>\<open>id\<close> for a
  new user.
\<close>

theorem C5_upsert_validation_witness:
  "upsertThread sample_platform None (Some (JObj [(''name'', JStr ''Ada'')]))
      ''2026-01-01T00:00:00.000Z'' \<lparr>db = [(''demo'', empty_store)], saveTimer = False\<rparr> =
     (\<lparr>db = [(''demo'', empty_store)], saveTimer = False\<rparr>, Bad_request) \<and>
   upsertThread sample_platform None (Some (JObj [(''id'', JStr [])]))
      ''2026-01-01T00:00:00.000Z'' initial =
     (\<lparr>db = [(''demo'', empty_store)], saveTimer = True\<rparr>, Bad_request)"
  using C5_upsert_validation [of sample_platform None "Some (JObj [(''name'', JStr ''Ada'')])"
      "''2026-01-01T00:00:00.000Z''" "\<lparr>db = [(''demo'', empty_store)], saveTimer = False\<rparr>"]
    C5_upsert_validation [of sample_platform None "Some (JObj [(''id'', JStr [])])"
      "''2026-01-01T00:00:00.000Z''" initial]
  by (simp add: upsertThread_def eval_defs)

text \<open>
  The claim as stated fails for a new user: the rejected call has created the tenant and
  armed the save timer.
\<close>

theorem C5_counterexample:
  "snd (upsertThread sample_platform None (Some (JObj [])) ''2026-01-01T00:00:00.000Z'' initial)
     = Bad_request \<and>
   fst (upsertThread sample_platform None (Some (JObj [])) ''2026-01-01T00:00:00.000Z'' initial)
     \<noteq> initial \<and>
   db (fst (upsertThread sample_platform None (Some (JObj [])) ''2026-01-01T00:00:00.000Z'' initial))
     = [(''demo'', empty_store)] \<and>
   saveTimer (fst (upsertThread sample_platform None (Some (JObj []))
     ''2026-01-01T00:00:00.000Z'' initial)) \<and>
   \<not> saveTimer initial"
  by (simp add: upsertThread_def eval_defs)

subsection \<open>C6: server time stamps and the preview of the thread\<close>



subsection \<open>C7: a thread and its message list\<close>

text \<open>
  C7 does not hold of the code. \<open>upsertThread\<close> stores the thread under its id and then
  creates the message list only if \<^verbatim>\<open>!store.messages[thread.id]\<close>. For an id that names a
  member of \<^verbatim>\<open>Object.prototype\<close> the lookup finds the inherited member, which is truthy:
  the thread \<^verbatim>\<open>constructor\<close> is stored and no message list is. A message posted to that
  thread afterwards finds the inherited function instead of an array and throws.
\<close>

theorem C7_thread_without_list:
  "fst (upsertThread sample_platform None (Some (JObj [(''id'', JStr ''constructor'')]))
       ''2026-01-01T00:00:00.000Z'' initial) =
     \<lparr>db = [(''demo'',
        \<lparr>threads = \<lparr>own_threads =
            [(''constructor'', new_thread ''constructor'' ''2026-01-01T00:00:00.000Z'')],
            proto_thread = None\<rparr>,
         messages = []\<rparr>)],
      saveTimer = True\<rparr> \<and>
   snd (appendMessage sample_platform None ''constructor'' (Some (JObj [(''text'', JStr ''hi'')]))
       ''2026-01-01T00:00:01.000Z'' ''2026-01-01T00:00:01.000Z'' ''u-1''
       (fst (upsertThread sample_platform None (Some (JObj [(''id'', JStr ''constructor'')]))
          ''2026-01-01T00:00:00.000Z'' initial))) = TypeError"
  by code_simp

text \<open>In that state the thread map has the key and the message map has not.\<close>

theorem C7_thread_without_list_witness:
  "map_of (own_threads (threads (snd (hd (db (fst (upsertThread sample_platform None
       (Some (JObj [(''id'', JStr ''constructor'')])) ''2026-01-01T00:00:00.000Z'' initial)))))))
     ''constructor'' \<noteq> None \<and>
   map_of (messages (snd (hd (db (fst (upsertThread sample_platform None
       (Some (JObj [(''id'', JStr ''constructor'')])) ''2026-01-01T00:00:00.000Z'' initial))))))
     ''constructor'' = None"
  using C7_thread_without_list by simp

subsection \<open>C8: the order of listThreads\<close>

lemma mset_js_insert: "mset (js_insert cmp x ys) = add_mset x (mset ys)"
  by (induction ys) auto

lemma mset_js_sort: "mset (js_sort cmp xs) = mset xs"
  by (induction xs) (auto simp: js_sort_def mset_js_insert)

lemma set_js_insert: "set (js_insert cmp x ys) = insert x (set ys)"
  using mset_js_insert [of cmp x ys] by (metis set_mset_add_mset_insert set_mset_mset)

lemma set_js_sort: "set (js_sort cmp xs) = set xs"
  using mset_js_sort [of cmp xs] by (metis set_mset_mset)

lemma positive_by_updatedAt:
  "dated P x \<Longrightarrow> dated P y \<Longrightarrow>
   positive (by_updatedAt P x y) = (\<not> not_older P x y)"
  by (auto simp: dated_def positive_def by_updatedAt_def not_older_def)

lemma not_older_total: "dated P x \<Longrightarrow> dated P y \<Longrightarrow> \<not> not_older P x y \<Longrightarrow> not_older P y x"
  by (auto simp: dated_def not_older_def)

lemma not_older_trans: "not_older P x y \<Longrightarrow> not_older P y z \<Longrightarrow> not_older P x z"
  by (auto simp: not_older_def split: option.splits)

lemma sorted_js_insert:
  "dated P x \<Longrightarrow> \<forall>y \<in> set ys. dated P y \<Longrightarrow> sorted_wrt (not_older P) ys \<Longrightarrow>
   sorted_wrt (not_older P) (js_insert (by_updatedAt P) x ys)"
proof (induction ys)
  case Nil
  then show ?case by simp
next
  case (Cons y ys)
  show ?case
  proof (cases "not_older P x y")
    case True
    then have "\<forall>z \<in> set ys. not_older P x z"
      using Cons.prems(3) by (auto intro: not_older_trans)
    then show ?thesis
      using True Cons.prems by (simp add: positive_by_updatedAt)
  next
    case False
    then have "not_older P y x"
      using Cons.prems by (simp add: not_older_total)
    then show ?thesis
      using False Cons by (simp add: positive_by_updatedAt set_js_insert)
  qed
qed

lemma sorted_js_sort:
  "\<forall>x \<in> set xs. dated P x \<Longrightarrow> sorted_wrt (not_older P) (js_sort (by_updatedAt P) xs)"
proof (induction xs)
  case Nil
  then show ?case by (simp add: js_sort_def)
next
  case (Cons x xs)
  then have "sorted_wrt (not_older P) (js_sort (by_updatedAt P) xs)" by simp
  then have "sorted_wrt (not_older P) (js_insert (by_updatedAt P) x (js_sort (by_updatedAt P) xs))"
    using Cons.prems by (intro sorted_js_insert) (simp_all add: set_js_sort)
  then show ?case by (simp add: js_sort_def)
qed

lemma js_sort_Cons: "js_sort cmp (x # xs) = js_insert cmp x (js_sort cmp xs)"
  by (simp add: js_sort_def)

lemma newest_first:
  assumes "date_parse P (th_updatedAt x) = Some T"
    and "\<forall>y \<in> set xs. y \<noteq> x \<longrightarrow> older_than P T y"
    and "x \<in> set xs"
  shows "\<exists>rest. js_sort (by_updatedAt P) xs = x # rest"
  using assms(2,3)
proof (induction xs)
  case Nil
  then show ?case by simp
next
  case (Cons y ys)
  show ?case
  proof (cases "x \<in> set ys")
    case True
    then obtain rest where r: "js_sort (by_updatedAt P) ys = x # rest"
      using Cons by auto
    show ?thesis
    proof (cases "y = x")
      case True
      then have "\<not> positive (by_updatedAt P y x)"
        using assms(1) by (simp add: positive_def by_updatedAt_def)
      then show ?thesis using r True by (simp add: js_sort_Cons)
    next
      case False
      then have "older_than P T y" using Cons.prems by simp
      then have "positive (by_updatedAt P y x)"
        using assms(1) by (auto simp: positive_def by_updatedAt_def older_than_def split: option.splits)
      then show ?thesis using r by (simp add: js_sort_Cons)
    qed
  next
    case False
    then have yx: "y = x" using Cons.prems by simp
    show ?thesis
    proof (cases "js_sort (by_updatedAt P) ys")
      case Nil
      then show ?thesis using yx by (simp add: js_sort_Cons)
    next
      case (Cons z zs)
      then have "z \<in> set ys" using set_js_sort [of "by_updatedAt P" ys] by auto
      then have "z \<noteq> x" "older_than P T z" using False Cons.prems by auto
      then have "\<not> positive (by_updatedAt P x z)"
        using assms(1) by (auto simp: positive_def by_updatedAt_def older_than_def split: option.splits)
      then show ?thesis using Cons yx by (simp add: js_sort_Cons)
    qed
  qed
qed

text \<open>
  C8, as amended. For an existing tenant \<open>listThreads\<close> returns all its threads, and in
  the order of \<^verbatim>\<open>updatedAt\<close>, latest first, when every \<^verbatim>\<open>updatedAt\<close> is a date. After a
  message was created, the stored thread has the time of the message as \<^verbatim>\<open>updatedAt\<close>, and
  it is the first thread listed when every other thread was updated before that time.
\<close>

theorem C8_listThreads_order:
  "(js_get (db s) (userId_of hdr) = Own st \<longrightarrow>
      (\<exists>ts. listThreads P hdr s = (s, Threads ts) \<and>
            mset ts = mset (map snd (own_threads (threads st))) \<and>
            ((\<forall>t \<in> set ts. dated P t) \<longrightarrow> sorted_wrt (not_older P) ts))) \<and>
   (appendMessage P hdr tid body now serverAt uuid s = (s', Message_created m stamp) \<and>
    js_get (db s') (userId_of hdr) = Own st' \<and>
    threads_get (threads st') tid = TOwn th \<and>
    date_parse P stamp = Some T \<and>
    (\<forall>t \<in> set (map snd (own_threads (threads st'))). t \<noteq> th \<longrightarrow> older_than P T t) \<longrightarrow>
      th_updatedAt th = stamp \<and> (\<exists>rest. listThreads P hdr s' = (s', Threads (th # rest))))"
proof (intro conjI impI)
  assume "js_get (db s) (userId_of hdr) = Own st"
  then have "listThreads P hdr s =
      (s, Threads (js_sort (by_updatedAt P) (map snd (own_threads (threads st)))))"
    by (simp add: listThreads_def getUser_known)
  then show "\<exists>ts. listThreads P hdr s = (s, Threads ts) \<and>
            mset ts = mset (map snd (own_threads (threads st))) \<and>
            ((\<forall>t \<in> set ts. dated P t) \<longrightarrow> sorted_wrt (not_older P) ts)"
    by (simp add: mset_js_sort set_js_sort sorted_js_sort del: mset_map)
next
  assume a: "appendMessage P hdr tid body now serverAt uuid s = (s', Message_created m stamp) \<and>
    js_get (db s') (userId_of hdr) = Own st' \<and>
    threads_get (threads st') tid = TOwn th \<and>
    date_parse P stamp = Some T \<and>
    (\<forall>t \<in> set (map snd (own_threads (threads st'))). t \<noteq> th \<longrightarrow> older_than P T t)"
  then have created: "appendMessage P hdr tid body now serverAt uuid s = (s', Message_created m stamp)"
    and st': "js_get (db s') (userId_of hdr) = Own st'"
    and th: "threads_get (threads st') tid = TOwn th"
    and T: "date_parse P stamp = Some T"
    and others: "\<forall>t \<in> set (map snd (own_threads (threads st'))). t \<noteq> th \<longrightarrow> older_than P T t"
    by simp_all
  show u: "th_updatedAt th = stamp"
  proof (rule appendMessage_created [OF created])
    fix st msg list
    assume m: "msg_at msg = stamp"
      and d: "db s' = obj_put (userId_of hdr)
       (let st2 = (ensureThread now st tid)
                    \<lparr>messages := obj_put tid (list @ [msg]) (messages (ensureThread now st tid))\<rparr>
        in case threads_get (threads st2) tid of
             TOwn th \<Rightarrow> st2\<lparr>threads := own_thread_update tid
                 (th\<lparr>th_lastMessage := msg_text msg, th_updatedAt := msg_at msg\<rparr>) (threads st2)\<rparr>
           | TProto p \<Rightarrow> st2\<lparr>threads := (threads st2)\<lparr>proto_thread :=
                 Some (p\<lparr>th_lastMessage := msg_text msg, th_updatedAt := msg_at msg\<rparr>)\<rparr>\<rparr>
           | _ \<Rightarrow> st2)
       (db (fst (getUser hdr s)))"
    show "th_updatedAt th = stamp"
      using st' th m unfolding d
      by (cases "threads_get (threads (ensureThread now st tid)) tid")
         (auto simp: js_get_obj_put Let_def threads_get_def own_thread_update_def
            map_of_obj_put split: option.splits if_splits)
  qed
  have "th \<in> set (map snd (own_threads (threads st')))"
    using th by (auto simp: threads_get_TOwn dest: map_of_SomeD intro: rev_image_eqI)
  then obtain rest where
    "js_sort (by_updatedAt P) (map snd (own_threads (threads st'))) = th # rest"
    using newest_first [of P th T "map snd (own_threads (threads st'))"] T others u by auto
  then show "\<exists>rest. listThreads P hdr s' = (s', Threads (th # rest))"
    using st' by (simp add: listThreads_def getUser_known)
qed

text \<open>
  On the sample dataset: the message to \<^verbatim>\<open>t2\<close> is stamped after the update of \<^verbatim>\<open>t1\<close>, and
  \<^verbatim>\<open>t2\<close> is listed first.
\<close>

theorem C8_listThreads_order_witness:
  "listThreads sample_platform None sample_after_append =
     (sample_after_append, Threads [sample_t2, sample_t1]) \<and>
   sorted_wrt (not_older sample_platform) [sample_t2, sample_t1] \<and>
   th_updatedAt sample_t2 = ''2999-01-01T00:00:00.000Z''"
proof -
  have e: "listThreads sample_platform None sample_after_append =
      (sample_after_append, Threads [sample_t2, sample_t1])"
    by code_simp
  have o: "js_get (db sample_after_append) (userId_of None) = Own (snd (hd (db sample_after_append)))"
    by code_simp
  have d: "\<forall>t \<in> set [sample_t2, sample_t1]. dated sample_platform t"
    by code_simp
  have h: "appendMessage sample_platform None ''t2''
            (Some (JObj [(''id'', JStr ''m9''), (''text'', JStr ''yo'')]))
            ''2999-01-01T00:00:00.000Z'' ''2999-01-01T00:00:00.000Z'' ''u-1'' sample_state =
        (sample_after_append, Message_created ''m9'' ''2999-01-01T00:00:00.000Z'') \<and>
      js_get (db sample_after_append) (userId_of None) = Own (snd (hd (db sample_after_append))) \<and>
      threads_get (threads (snd (hd (db sample_after_append)))) ''t2'' = TOwn sample_t2 \<and>
      date_parse sample_platform ''2999-01-01T00:00:00.000Z'' = Some 32472144000000 \<and>
      (\<forall>t \<in> set (map snd (own_threads (threads (snd (hd (db sample_after_append)))))).
          t \<noteq> sample_t2 \<longrightarrow> older_than sample_platform 32472144000000 t)"
    by code_simp
  have sorted: "sorted_wrt (not_older sample_platform) [sample_t2, sample_t1]"
    using C8_listThreads_order [where s = sample_after_append and hdr = None
        and st = "snd (hd (db sample_after_append))" and P = sample_platform] o e d
    by auto
  have front: "th_updatedAt sample_t2 = ''2999-01-01T00:00:00.000Z''"
    using C8_listThreads_order [where P = sample_platform and tid = "''t2''"
        and body = "Some (JObj [(''id'', JStr ''m9''), (''text'', JStr ''yo'')])"
        and now = "''2999-01-01T00:00:00.000Z''" and serverAt = "''2999-01-01T00:00:00.000Z''"
        and uuid = "''u-1''" and s = sample_state and s' = sample_after_append
        and m = "''m9''" and stamp = "''2999-01-01T00:00:00.000Z''" and hdr = None
        and st' = "snd (hd (db sample_after_append))" and th = sample_t2
        and T = 32472144000000]
      h
    by blast
  show ?thesis using e sorted front by simp
qed

text \<open>
  The claim as stated fails when another thread carries a later \<^verbatim>\<open>updatedAt\<close>, which a
  client may set through \<open>upsertThread\<close>: thread \<^verbatim>\<open>b\<close> is dated 2999, the message to
  thread \<^verbatim>\<open>a\<close> is created in 2026, and \<^verbatim>\<open>b\<close> stays in front.
\<close>

theorem C8_counterexample:
  "snd (handle sample_platform
      (AppendMessage None ''a'' (Some (JObj [(''id'', JStr ''m1''), (''text'', JStr ''hi'')]))
         ''2026-01-02T00:00:00.000Z'' ''2026-01-02T00:00:00.000Z'' ''u-1'')
      (run sample_platform
         [UpsertThread None
            (Some (JObj [(''id'', JStr ''b''), (''updatedAt'', JStr ''2999-01-01T00:00:00.000Z'')]))
            ''2026-01-01T00:00:00.000Z''] initial)) =
     Message_created ''m1'' ''2026-01-02T00:00:00.000Z'' \<and>
   snd (listThreads sample_platform None
      (run sample_platform
         [UpsertThread None
            (Some (JObj [(''id'', JStr ''b''), (''updatedAt'', JStr ''2999-01-01T00:00:00.000Z'')]))
            ''2026-01-01T00:00:00.000Z'',
          AppendMessage None ''a'' (Some (JObj [(''id'', JStr ''m1''), (''text'', JStr ''hi'')]))
            ''2026-01-02T00:00:00.000Z'' ''2026-01-02T00:00:00.000Z'' ''u-1''] initial)) =
     Threads
       [(new_thread ''b'' ''2999-01-01T00:00:00.000Z''),
        (new_thread ''a'' ''2026-01-02T00:00:00.000Z'')\<lparr>th_lastMessage := ''hi''\<rparr>]"
  by code_simp

subsection \<open>C9: saving and loading\<close>

lemma json_of_thread:
  "finite_number (th_unread t) \<Longrightarrow> json_of (thread_value t) = thread_value t"
  by (simp add: thread_value_def finite_number_def split: jsnum.splits)

lemma json_of_message: "json_of (message_value m) = message_value m"
  by (simp add: message_value_def)

lemma json_of_store:
  "list_all (\<lambda>(k, t). finite_number (th_unread t)) (own_threads (threads st)) \<Longrightarrow>
   json_of (store_value st) = store_value st"
  by (auto simp: store_value_def json_of_thread json_of_message list_all_iff)

lemma json_of_db: "finite_unreads d \<Longrightarrow> json_of (db_value d) = db_value d"
  by (auto simp: finite_unreads_def db_value_def json_of_store list_all_iff)

lemma those_map_inverse:
  "(\<And>x. x \<in> set xs \<Longrightarrow> f (g x) = Some x) \<Longrightarrow> those (map f (map g xs)) = Some xs"
  by (induction xs) simp_all

lemma entries_values:
  assumes "\<And>k x. (k, x) \<in> set ps \<Longrightarrow> f (g x) = Some x"
  shows "entries f (map (\<lambda>(k, x). (k, g x)) ps) = Some ps"
  unfolding entries_def
  by (rule those_map_inverse) (use assms in auto)

lemma thread_of_thread_value: "thread_of_value (thread_value t) = Some t"
  by (simp add: thread_of_value_def thread_value_def str_field_def bool_field_def num_field_def
      field_def)

lemma message_of_message_value: "message_of_value (message_value m) = Some m"
  by (simp add: message_of_value_def message_value_def str_field_def bool_field_def field_def)

lemma messages_of_values: "messages_of_value (JArr (map message_value ms)) = Some ms"
  unfolding messages_of_value_def jv.case
  by (rule those_map_inverse) (rule message_of_message_value)

lemma store_of_store_value:
  "proto_thread (threads st) = None \<Longrightarrow> store_of_value (store_value st) = Some st"
proof -
  assume p: "proto_thread (threads st) = None"
  have 1: "entries thread_of_value (map (\<lambda>(k, t). (k, thread_value t)) (own_threads (threads st))) =
      Some (own_threads (threads st))"
    by (rule entries_values) (rule thread_of_thread_value)
  have 2: "entries messages_of_value (map (\<lambda>(k, ms). (k, JArr (map message_value ms))) (messages st)) =
      Some (messages st)"
    by (rule entries_values) (rule messages_of_values)
  show ?thesis
    using p by (simp add: store_of_value_def store_value_def obj_field_def field_def 1 2)
qed

lemma db_of_db_value: "own_prototypes d \<Longrightarrow> db_of_value (db_value d) = Some d"
proof -
  assume "own_prototypes d"
  then have "\<And>u st. (u, st) \<in> set d \<Longrightarrow> store_of_value (store_value st) = Some st"
    by (auto simp: own_prototypes_def list_all_iff store_of_store_value)
  then have "entries store_of_value (map (\<lambda>(u, st). (u, store_value st)) d) = Some d"
    by (rule entries_values)
  then show ?thesis by (simp add: db_of_value_def db_value_def)
qed

text \<open>
  Every route keeps a dataset savable, an \<open>upsertThread\<close> provided it is plain: the other
  routes store threads with the \<^verbatim>\<open>unread\<close> \<open>0\<close> or leave the \<^verbatim>\<open>unread\<close> as it is, and they
  write to \<^verbatim>\<open>store.threads\<close> only under a key whose lookup was falsy, which \<^verbatim>\<open>__proto__\<close>
  never is.
\<close>

lemma savable_iff: "savable d \<longleftrightarrow> finite_unreads d \<and> own_prototypes d"
  by (induction d) (auto simp: savable_def savable_threads_def finite_unreads_def own_prototypes_def)

lemma list_all_put_existing:
  "list_all Q ps \<Longrightarrow> Q (k, v) \<Longrightarrow> list_all Q (put_existing k v ps)"
  by (induction ps) auto

lemma list_all_put_index:
  "list_all Q ps \<Longrightarrow> Q (k, v) \<Longrightarrow> list_all Q (put_index k v ps)"
  by (induction ps) auto

lemma list_all_obj_put:
  "list_all Q ps \<Longrightarrow> Q (k, v) \<Longrightarrow> list_all Q (obj_put k v ps)"
  by (simp add: obj_put_def list_all_put_existing list_all_put_index)

lemma list_all_lookup: "list_all Q ps \<Longrightarrow> map_of ps k = Some v \<Longrightarrow> Q (k, v)"
  by (auto simp: list_all_iff dest: map_of_SomeD)

lemma savable_empty_store: "savable_threads (threads empty_store)"
  by (simp add: savable_threads_def empty_store_def)

lemma savable_threads_set:
  "savable_threads ts \<Longrightarrow> k \<noteq> ''__proto__'' \<Longrightarrow> finite_number (th_unread t) \<Longrightarrow>
   savable_threads (threads_set k t ts)"
  by (simp add: savable_threads_def threads_set_def list_all_obj_put)

lemma savable_own_update:
  assumes "savable_threads ts" and "threads_get ts k = TOwn th"
    and "th_unread th' = th_unread th \<or> finite_number (th_unread th')"
  shows "savable_threads (own_thread_update k th' ts)"
proof -
  have "finite_number (th_unread th)"
    using assms(1,2) list_all_lookup [of _ "own_threads ts" k th]
    by (auto simp: savable_threads_def threads_get_TOwn)
  then have "finite_number (th_unread th')" using assms(3) by auto
  then show ?thesis
    using assms(1) by (simp add: savable_threads_def own_thread_update_def list_all_obj_put)
qed

lemma savable_no_TProto: "savable_threads ts \<Longrightarrow> threads_get ts k \<noteq> TProto p"
  by (auto simp: savable_threads_def dest: threads_get_TProto)

lemma threads_ensureThread_eq:
  "threads (ensureThread now st k) =
     (if \<not> tslot_truthy (threads_get (threads st) k)
      then threads_set k (new_thread k now) (threads st) else threads st)"
  by (simp add: ensureThread_def Let_def)

lemma savable_ensureThread:
  assumes "savable_threads (threads st)"
  shows "savable_threads (threads (ensureThread now st k))"
proof (cases "tslot_truthy (threads_get (threads st) k)")
  case True
  then show ?thesis using assms by (simp add: threads_ensureThread_eq)
next
  case False
  then have "k \<noteq> ''__proto__''" by (rule falsy_not_proto)
  then have "savable_threads (threads_set k (new_thread k now) (threads st))"
    using assms by (simp add: savable_threads_set new_thread_def finite_number_def)
  then show ?thesis using False by (simp add: threads_ensureThread_eq)
qed

lemma threads_after_push_eq:
  "threads (after_push st k list msg) =
     (case threads_get (threads st) k of
        TOwn th \<Rightarrow> own_thread_update k
            (th\<lparr>th_lastMessage := msg_text msg, th_updatedAt := msg_at msg\<rparr>) (threads st)
      | TProto p \<Rightarrow> (threads st)\<lparr>proto_thread :=
            Some (p\<lparr>th_lastMessage := msg_text msg, th_updatedAt := msg_at msg\<rparr>)\<rparr>
      | _ \<Rightarrow> threads st)"
  by (cases "threads_get (threads st) k") (simp_all add: after_push_def)

lemma savable_after_push:
  assumes "savable_threads (threads st)"
  shows "savable_threads (threads (after_push st k list msg))"
proof (cases "threads_get (threads st) k")
  case (TOwn th)
  have "savable_threads (own_thread_update k
      (th\<lparr>th_lastMessage := msg_text msg, th_updatedAt := msg_at msg\<rparr>) (threads st))"
    using assms TOwn by (rule savable_own_update) simp
  then show ?thesis using TOwn by (simp add: threads_after_push_eq)
next
  case (TProto p)
  then show ?thesis using assms by (simp add: savable_no_TProto)
qed (use assms in \<open>simp_all add: threads_after_push_eq\<close>)

lemma savable_getUser:
  assumes "savable (db s)" and "getUser hdr s = (s1, sl)"
  shows "savable (db s1) \<and> (\<forall>st. sl = Own st \<longrightarrow> savable_threads (threads st))"
proof (rule getUser_cases [of hdr s])
  fix st
  assume "getUser hdr s = (s, Own st)" and l: "js_get (db s) (userId_of hdr) = Own st"
  then show ?thesis
    using assms
      list_all_lookup [of "\<lambda>(u, st). savable_threads (threads st)" "db s" "userId_of hdr" st]
    by (auto simp: savable_def js_get_Own_iff)
next
  assume "getUser hdr s = (s, Builtin)"
  then show ?thesis using assms by simp
next
  assume "getUser hdr s =
      (\<lparr>db = obj_put (userId_of hdr) empty_store (db s), saveTimer = True\<rparr>, Own empty_store)"
  then show ?thesis
    using assms by (auto simp: savable_def list_all_obj_put savable_empty_store)
qed

lemma savable_set_store:
  "savable (db s) \<Longrightarrow> savable_threads (threads st) \<Longrightarrow> savable (db (set_store hdr st s))"
  by (simp add: savable_def set_store_def list_all_obj_put)

lemma savable_scheduleSave: "savable (db (scheduleSave s)) = savable (db s)"
  by (simp add: scheduleSave_def)

lemma savable_listThreads: "savable (db s) \<Longrightarrow> savable (db (fst (listThreads P hdr s)))"
proof -
  assume a: "savable (db s)"
  have "fst (listThreads P hdr s) = fst (getUser hdr s)"
    by (cases "getUser hdr s") (simp add: listThreads_def split: slot.splits)
  then show ?thesis using savable_getUser [OF a, of hdr] by (cases "getUser hdr s") simp
qed

lemma savable_listMessages:
  assumes a: "savable (db s)"
  shows "savable (db (fst (listMessages P hdr k q now s)))"
proof (cases "getUser hdr s")
  case (Pair s1 sl)
  from savable_getUser [OF a Pair] show ?thesis
    using Pair
    by (cases sl) (simp_all add: listMessages_state savable_set_store savable_ensureThread)
qed

lemma savable_markRead:
  assumes a: "savable (db s)"
  shows "savable (db (fst (markRead hdr k now s)))"
proof (cases "getUser hdr s")
  case (Pair s1 sl)
  from savable_getUser [OF a Pair] have s1: "savable (db s1)"
    and st: "\<And>st. sl = Own st \<Longrightarrow> savable_threads (threads st)" by simp_all
  show ?thesis
  proof (cases sl)
    case (Own st0)
    let ?st1 = "ensureThread now st0 k"
    have e: "savable_threads (threads ?st1)" using st [OF Own] by (rule savable_ensureThread)
    show ?thesis
    proof (cases "threads_get (threads ?st1) k")
      case (TOwn th)
      have "savable_threads (own_thread_update k (th\<lparr>th_unread := Finite 0\<rparr>) (threads ?st1))"
        using e TOwn by (rule savable_own_update) (simp add: finite_number_def)
      then show ?thesis
        using Pair Own TOwn s1
        by (simp add: markRead_def Let_def savable_scheduleSave savable_set_store)
    next
      case (TProto p)
      then show ?thesis using e by (simp add: savable_no_TProto)
    qed (use Pair Own s1 e in
          \<open>simp_all add: markRead_def Let_def savable_scheduleSave savable_set_store\<close>)
  qed (use Pair s1 in \<open>simp_all add: markRead_def\<close>)
qed

lemma savable_upsertThread:
  assumes a: "savable (db s)" and p: "plain_upsert P (UpsertThread hdr body now)"
  shows "savable (db (fst (upsertThread P hdr body now s)))"
proof (cases "getUser hdr s")
  case (Pair s1 sl)
  from savable_getUser [OF a Pair] have s1: "savable (db s1)"
    and st: "\<And>st. sl = Own st \<Longrightarrow> savable_threads (threads st)" by simp_all
  show ?thesis
  proof (cases "snd (upsertThread P hdr body now s) = Thread_created")
    case False
    then have "fst (upsertThread P hdr body now s) = s1"
      using Pair
      by (auto simp: upsertThread_def Let_def split: option.splits slot.splits if_splits)
    then show ?thesis using s1 by simp
  next
    case True
    then obtain st0 thread t_id where sl: "sl = Own st0"
      and f: "field (body_or_empty body) ''id'' = Some t_id" and tr: "truthy t_id"
      and tb: "thread_of_body P now (body_or_empty body) t_id = Some thread"
      and r: "fst (upsertThread P hdr body now s) =
        scheduleSave (set_store hdr
          (let st1 = st0\<lparr>threads := threads_set (th_id thread) thread (threads st0)\<rparr>
           in if \<not> slot_truthy (js_get (messages st1) (th_id thread))
              then st1\<lparr>messages := obj_put (th_id thread) [] (messages st1)\<rparr> else st1) s1)"
      using Pair
      by (auto simp: upsertThread_def Let_def split: option.splits slot.splits if_splits)
    have ok: "th_id thread \<noteq> ''__proto__'' \<and> finite_number (th_unread thread)"
      using p f tr tb by (simp add: plain_upsert_def)
    have "savable_threads (threads_set (th_id thread) thread (threads st0))"
      using st [OF sl] ok by (simp add: savable_threads_set)
    then have "savable_threads (threads
          (let st1 = st0\<lparr>threads := threads_set (th_id thread) thread (threads st0)\<rparr>
           in if \<not> slot_truthy (js_get (messages st1) (th_id thread))
              then st1\<lparr>messages := obj_put (th_id thread) [] (messages st1)\<rparr> else st1))"
      by (simp add: Let_def)
    then show ?thesis
      using r s1 by (simp add: savable_scheduleSave savable_set_store)
  qed
qed

lemma savable_appendMessage:
  assumes a: "savable (db s)"
  shows "savable (db (fst (appendMessage P hdr k body now serverAt uuid s)))"
proof (cases "\<exists>m a. snd (appendMessage P hdr k body now serverAt uuid s) = Message_created m a")
  case True
  then obtain s' m st where
    c: "appendMessage P hdr k body now serverAt uuid s = (s', Message_created m st)"
    by (cases "appendMessage P hdr k body now serverAt uuid s") auto
  show ?thesis
  proof (rule appendMessage_pushed [OF c])
    fix st0 msg
    assume g: "snd (getUser hdr s) = Own st0"
      and d: "db s' = obj_put (userId_of hdr)
       (after_push (ensureThread now st0 k) k (store_messages st0 k) msg) (db (fst (getUser hdr s)))"
    have gu: "getUser hdr s = (fst (getUser hdr s), Own st0)"
      using g by (simp add: prod_eq_iff)
    from savable_getUser [OF a gu]
    have s1: "savable (db (fst (getUser hdr s)))" and st: "savable_threads (threads st0)"
      by simp_all
    have "savable_threads
        (threads (after_push (ensureThread now st0 k) k (store_messages st0 k) msg))"
      using st by (simp add: savable_after_push savable_ensureThread)
    then have "savable (db s')"
      using s1 unfolding d savable_def by (simp add: list_all_obj_put)
    then show ?thesis using c by simp
  qed
next
  case False
  obtain s1 sl where g: "getUser hdr s = (s1, sl)" by (cases "getUser hdr s")
  from savable_getUser [OF a g] have s1: "savable (db s1)"
    and st: "\<And>st. sl = Own st \<Longrightarrow> savable_threads (threads st)" by simp_all
  from appendMessage_other [OF g, of P k body now serverAt uuid] False
  have "fst (appendMessage P hdr k body now serverAt uuid s) = s1 \<or>
    (\<exists>st. sl = Own st \<and>
       fst (appendMessage P hdr k body now serverAt uuid s) = set_store hdr (ensureThread now st k) s1)"
    by simp
  then show ?thesis
    using s1 st by (auto simp: savable_set_store savable_ensureThread)
qed

lemma savable_handle:
  "savable (db s) \<Longrightarrow> plain_upsert P r \<Longrightarrow> savable (db (fst (handle P r s)))"
  by (cases r)
     (simp_all add: savable_listThreads savable_upsertThread savable_listMessages
        savable_markRead savable_appendMessage)

lemma savable_run:
  "savable (db s) \<Longrightarrow> list_all (plain_upsert P) rs \<Longrightarrow> savable (db (run P rs s))"
  by (induction rs arbitrary: s) (simp_all add: savable_handle)

text \<open>
  C9, as amended. When the \<^verbatim>\<open>unread\<close> of every stored thread is a finite number and no
  tenant has had the prototype of its \<^verbatim>\<open>store.threads\<close> replaced, a save that succeeds
  followed by a load yields the value of the dataset that was saved; the dataset that the
  routes find in the loaded value is the dataset that was saved; and no other such dataset
  loads to the same value. Every dataset reached from the empty one by requests that are
  plain upserts satisfies the two conditions.
\<close>

theorem C9_save_load:
  "(finite_unreads d \<and> own_prototypes d \<longrightarrow>
      loadDb (saveDbNow Written d) = db_value d \<and>
      db_of_value (loadDb (saveDbNow Written d)) = Some d \<and>
      (\<forall>d'. finite_unreads d' \<and> own_prototypes d' \<and>
            loadDb (saveDbNow Written d') = loadDb (saveDbNow Written d) \<longrightarrow> d' = d)) \<and>
   (list_all (plain_upsert P) rs \<longrightarrow>
      finite_unreads (db (run P rs initial)) \<and> own_prototypes (db (run P rs initial)))"
proof -
  have recovered: "db_of_value (loadDb (saveDbNow Written e)) = Some e"
    if "finite_unreads e" and "own_prototypes e" for e
    using that by (simp add: loadDb_def saveDbNow_def json_of_db db_of_db_value)
  have 1: "loadDb (saveDbNow Written d) = db_value d \<and>
      db_of_value (loadDb (saveDbNow Written d)) = Some d \<and>
      (\<forall>d'. finite_unreads d' \<and> own_prototypes d' \<and>
            loadDb (saveDbNow Written d') = loadDb (saveDbNow Written d) \<longrightarrow> d' = d)"
    if fd: "finite_unreads d" and pd: "own_prototypes d"
  proof -
    have "d' = d"
      if f: "finite_unreads d'" and p: "own_prototypes d'"
        and e: "loadDb (saveDbNow Written d') = loadDb (saveDbNow Written d)" for d'
    proof -
      have "Some d' = db_of_value (loadDb (saveDbNow Written d))"
        unfolding e [symmetric] by (rule recovered [OF f p, symmetric])
      also have "\<dots> = Some d" by (rule recovered [OF fd pd])
      finally show ?thesis by simp
    qed
    moreover have "loadDb (saveDbNow Written d) = db_value d"
      using fd by (simp add: loadDb_def saveDbNow_def json_of_db)
    ultimately show ?thesis using recovered [OF fd pd] by blast
  qed
  have "savable (db initial)"
    by (simp add: savable_def initial_def)
  then have 2: "finite_unreads (db (run P rs initial)) \<and> own_prototypes (db (run P rs initial))"
    if "list_all (plain_upsert P) rs"
    using that savable_run [of initial P rs] by (simp add: savable_iff)
  show ?thesis using 1 2 by blast
qed

text \<open>
  On the dataset reached from the empty one by two messages, a read mark and an upserted
  thread.
\<close>

theorem C9_save_load_witness:
  "list_all (plain_upsert sample_platform) sample_history \<and>
   db_of_value (loadDb (saveDbNow Written (db (run sample_platform sample_history initial)))) =
     Some (db (run sample_platform sample_history initial)) \<and>
   loadDb (saveDbNow Written (db (run sample_platform sample_history initial))) =
     db_value (db (run sample_platform sample_history initial))"
proof -
  have h: "list_all (plain_upsert sample_platform) sample_history"
    by code_simp
  have "finite_unreads (db (run sample_platform sample_history initial)) \<and>
      own_prototypes (db (run sample_platform sample_history initial))"
    using C9_save_load [of "[]" sample_platform sample_history] h by blast
  then show ?thesis
    using C9_save_load [of "db (run sample_platform sample_history initial)" sample_platform "[]"] h
    by blast
qed

text \<open>
  The claim as stated fails on a reachable dataset. A descriptor whose \<^verbatim>\<open>unread\<close> is an
  object is stored with \<^verbatim>\<open>Number({})\<close>, which is \<^verbatim>\<open>NaN\<close>; the file holds \<^verbatim>\<open>null\<close> in
  its place, and so does the loaded dataset.
\<close>

theorem C9_counterexample:
  "loadDb (saveDbNow Written (db (run sample_platform
      [UpsertThread None (Some (JObj [(''id'', JStr ''t1''), (''unread'', JObj [])]))
         ''2026-01-01T00:00:00.000Z''] initial))) \<noteq>
   db_value (db (run sample_platform
      [UpsertThread None (Some (JObj [(''id'', JStr ''t1''), (''unread'', JObj [])]))
         ''2026-01-01T00:00:00.000Z''] initial)) \<and>
   db_of_value (loadDb (saveDbNow Written (db (run sample_platform
      [UpsertThread None (Some (JObj [(''id'', JStr ''t1''), (''unread'', JObj [])]))
         ''2026-01-01T00:00:00.000Z''] initial)))) \<noteq>
   Some (db (run sample_platform
      [UpsertThread None (Some (JObj [(''id'', JStr ''t1''), (''unread'', JObj [])]))
         ''2026-01-01T00:00:00.000Z''] initial))"
  by code_simp

text \<open>
  The second condition is needed as well: a thread upserted under the id \<^verbatim>\<open>__proto__\<close>
  becomes the prototype of \<^verbatim>\<open>store.threads\<close>, which \<^verbatim>\<open>JSON.stringify\<close> does not write; the
  loaded tenant is the empty one.
\<close>

lemma save_load_replaced_prototype:
  "finite_unreads (db (run sample_platform
      [UpsertThread None (Some (JObj [(''id'', JStr ''__proto__'')]))
         ''2026-01-01T00:00:00.000Z''] initial)) \<and>
   db_of_value (loadDb (saveDbNow Written (db (run sample_platform
      [UpsertThread None (Some (JObj [(''id'', JStr ''__proto__'')]))
         ''2026-01-01T00:00:00.000Z''] initial)))) = Some [(''demo'', empty_store)] \<and>
   db (run sample_platform
      [UpsertThread None (Some (JObj [(''id'', JStr ''__proto__'')]))
         ''2026-01-01T00:00:00.000Z''] initial) \<noteq> [(''demo'', empty_store)]"
  by code_simp

subsection \<open>C10: an after value that is no date\<close>

text \<open>
  C10, for a user key and a thread id that are not inherited. In every state, a non-empty
  \<^verbatim>\<open>after\<close> that is no date gives the empty list, whatever the thread holds; the empty
  string gives what an absent \<^verbatim>\<open>after\<close> gives, the whole list stored for the thread.
\<close>

theorem C10_unparsable_after:
  assumes "\<not> inherited (userId_of hdr)" and "\<not> inherited tid"
  shows "(a \<noteq> [] \<and> date_parse P a = None \<longrightarrow>
       snd (listMessages P hdr tid (Some a) now s) = Messages []) \<and>
     snd (listMessages P hdr tid (Some []) now s) = Messages (stored s (userId_of hdr) tid) \<and>
     snd (listMessages P hdr tid (Some []) now s) = snd (listMessages P hdr tid None now s)"
  using assms by (simp add: listMessages_answer after_of_def date_gt_None)

text \<open>On the sample thread, which holds two messages.\<close>

theorem C10_unparsable_after_witness:
  "snd (listMessages sample_platform None ''t1'' (Some ''yesterday'')
     ''2026-01-02T00:00:00.000Z'' sample_state) = Messages [] \<and>
   snd (listMessages sample_platform None ''t1'' (Some [])
     ''2026-01-02T00:00:00.000Z'' sample_state) = Messages sample_messages"
proof -
  have h1: "\<not> inherited (userId_of None)" by code_simp
  have h2: "\<not> inherited ''t1''" by code_simp
  have s1: "stored sample_state (userId_of None) ''t1'' = sample_messages"
    by (simp add: stored_def store_messages_def sample_state_def userId_of_def js_get_def)
  show ?thesis
    using C10_unparsable_after [OF h1 h2, of "''yesterday''" sample_platform
        "''2026-01-02T00:00:00.000Z''" sample_state]
    unfolding s1 by (simp add: sample_platform_def)
qed

text \<open>
  C10 does not hold for every thread. For the thread \<^verbatim>\<open>constructor\<close>, created by
  \<open>upsertThread\<close>, and for the thread id \<^verbatim>\<open>toString\<close> on the empty dataset, an \<^verbatim>\<open>after\<close>
  that is no date is answered with an exception: the filter is called on the inherited
  function.
\<close>

theorem C10_failing_input:
  "snd (listMessages sample_platform None ''constructor'' (Some ''yesterday'')
      ''2026-01-02T00:00:00.000Z''
      (run sample_platform
         [UpsertThread None (Some (JObj [(''id'', JStr ''constructor'')]))
            ''2026-01-01T00:00:00.000Z''] initial)) = TypeError \<and>
   snd (listMessages sample_platform None ''toString'' (Some ''yesterday'')
      ''2026-01-02T00:00:00.000Z'' initial) = TypeError"
  by code_simp

end
